theory Spec2Isabelle
  imports Complex_Main
begin

section \<open>Values: the doubles of a price table\<close>

text \<open>
  The columns of a price table hold IEEE-754 binary64 numbers (doubles). A value is a
  finite number, minus zero, one of the two infinities, or NaN (which pandas also uses
  for a missing entry); \<open>Fin 0\<close> is plus zero. The arithmetic is the one numpy applies to
  doubles: the exact result is rounded to the nearest double, ties to even, a result too
  large becomes an infinity, one too small becomes a subnormal or a zero with the sign of
  the exact result, and the special cases (division by zero, arithmetic on infinities
  and NaN) produce a value (with at most a warning), never an exception. The values of
  a table are doubles; the operations below round their results, so they never leave the
  doubles, and the theorems hold for whatever finite numbers a table is given.
\<close>

datatype fl = Fin real | NZero | PInf | NInf | NaN

fun isnan :: "fl \<Rightarrow> bool" where
  "isnan NaN = True"
| "isnan _ = False"

fun isfinite :: "fl \<Rightarrow> bool" where
  "isfinite (Fin _) = True"
| "isfinite NZero = True"
| "isfinite _ = False"

fun is_zero :: "fl \<Rightarrow> bool" where
  "is_zero (Fin x) = (x = 0)"
| "is_zero NZero = True"
| "is_zero _ = False"

text \<open>The sign bit.\<close>

fun negative :: "fl \<Rightarrow> bool" where
  "negative (Fin x) = (x < 0)"
| "negative NZero = True"
| "negative NInf = True"
| "negative _ = False"

text \<open>The real number a finite value stands for.\<close>

fun val :: "fl \<Rightarrow> real" where
  "val (Fin x) = x"
| "val _ = 0"

text \<open>The infinity of a given sign (\<open>True\<close> is positive); the zero of a given sign bit.\<close>

definition inf_of :: "bool \<Rightarrow> fl" where
  "inf_of positive = (if positive then PInf else NInf)"

definition zero_of :: "bool \<Rightarrow> fl" where
  "zero_of neg = (if neg then NZero else Fin 0)"

subsection \<open>Rounding to the nearest double\<close>

text \<open>
  A double has 53 significant bits and an exponent from \<open>-1022\<close> to \<open>1023\<close>. Around a
  non-zero real \<open>x\<close> with \<open>pow2 e \<le> |x| < pow2 (e + 1)\<close> the doubles are the multiples of
  \<open>pow2 (e - 52)\<close>; below \<open>pow2 (-1022)\<close> (the subnormal range) they are the multiples of
  \<open>pow2 (-1074)\<close>. \<open>rnd x\<close> is the multiple nearest to \<open>x\<close>, the even one on a tie; it
  is an infinity when that multiple reaches \<open>pow2 1024\<close>, and a zero of the sign of \<open>x\<close>
  when that multiple is 0.
\<close>

definition pow2 :: "int \<Rightarrow> real" where
  "pow2 e = (if 0 \<le> e then 2 ^ nat e else 1 / 2 ^ nat (- e))"

definition expo :: "real \<Rightarrow> int" where
  "expo x = max (- 1022) \<lfloor>log 2 \<bar>x\<bar>\<rfloor>"

definition round_even :: "real \<Rightarrow> int" where
  "round_even y =
     (let f = \<lfloor>y\<rfloor>
      in if y - of_int f < 1 / 2 then f
         else if 1 / 2 < y - of_int f then f + 1
         else if even f then f else f + 1)"

definition rnd :: "real \<Rightarrow> fl" where
  "rnd x =
     (let q = pow2 (expo x - 52);
          y = of_int (round_even (x / q)) * q
      in if 2 ^ 1024 \<le> \<bar>y\<bar> then inf_of (0 < x)
         else if y = 0 then zero_of (x < 0)
         else Fin y)"

subsection \<open>Arithmetic\<close>

fun fneg :: "fl \<Rightarrow> fl" where
  "fneg (Fin x) = (if x = 0 then NZero else Fin (- x))"
| "fneg NZero = Fin 0"
| "fneg PInf = NInf"
| "fneg NInf = PInf"
| "fneg NaN = NaN"

text \<open>
  A sum that is exactly zero is plus zero, unless both operands are negative (minus zero
  plus minus zero). Infinities of opposite sign add up to NaN.
\<close>

definition fadd :: "fl \<Rightarrow> fl \<Rightarrow> fl" where
  "fadd a b =
     (if isnan a \<or> isnan b then NaN
      else if isfinite a \<and> isfinite b then
        (let s = val a + val b
         in if s = 0 then zero_of (negative a \<and> negative b) else rnd s)
      else if isfinite a then b
      else if isfinite b then a
      else if a = b then a else NaN)"

definition fsub :: "fl \<Rightarrow> fl \<Rightarrow> fl" where
  "fsub a b = fadd a (fneg b)"

text \<open>
  The sign of a product and of a quotient is the product of the signs, also for zeros
  and infinities. Infinity times zero is NaN.
\<close>

definition fmul :: "fl \<Rightarrow> fl \<Rightarrow> fl" where
  "fmul a b =
     (if isnan a \<or> isnan b then NaN
      else if isfinite a \<and> isfinite b then
        (let p = val a * val b
         in if p = 0 then zero_of (negative a \<noteq> negative b) else rnd p)
      else if is_zero a \<or> is_zero b then NaN
      else inf_of (negative a = negative b))"

text \<open>
  A non-zero number divided by a zero is an infinity; zero by zero and infinity by
  infinity are NaN; a finite number divided by an infinity is a zero.
\<close>

definition fdiv :: "fl \<Rightarrow> fl \<Rightarrow> fl" where
  "fdiv a b =
     (if isnan a \<or> isnan b then NaN
      else if isfinite a \<and> isfinite b then
        (if is_zero b then (if is_zero a then NaN else inf_of (negative a = negative b))
         else if is_zero a then zero_of (negative a \<noteq> negative b)
         else rnd (val a / val b))
      else if isfinite a then zero_of (negative a \<noteq> negative b)
      else if isfinite b then inf_of (negative a = negative b)
      else NaN)"

text \<open>
  \<^verbatim>\<open>np.log\<close> on one value: the logarithm of a zero is minus infinity, the logarithm of a
  negative number is NaN. On a positive finite double the result is the double that the
  platform's logarithm routine returns, which IEEE-754 does not fix: that routine is the
  parameter \<open>libm_log\<close>, from the double (as a real) to the result (as a real).
\<close>

fun np_log :: "(real \<Rightarrow> real) \<Rightarrow> fl \<Rightarrow> fl" where
  "np_log libm_log (Fin x) =
     (if 0 < x then Fin (libm_log x) else if x = 0 then NInf else NaN)"
| "np_log libm_log NZero = NInf"
| "np_log libm_log PInf = PInf"
| "np_log libm_log NInf = NaN"
| "np_log libm_log NaN = NaN"

section \<open>Series and price tables\<close>

text \<open>
  A date is its ordinal number. A \<^verbatim>\<open>pd.Series\<close> is an index with one value per index
  entry. A \<^verbatim>\<open>pd.DataFrame\<close> with single-level column labels is an index with its
  labelled columns, in column order.
\<close>

type_synonym date = nat

datatype error = KeyError | IndexError | ValueError | ProviderError string

record series =
  s_index :: "date list"
  s_values :: "fl list"

record dataframe =
  df_index :: "date list"
  df_index_name :: "string option"
  df_columns :: "(string \<times> fl list) list"

text \<open>
  \<^verbatim>\<open>data['Close']\<close>: the column of that label as a series on the table's index;
  \<^verbatim>\<open>KeyError\<close> when no column has the label. (With a label that occurs twice pandas
  returns a sub-table; the theorems below are about tables with distinct labels.)
\<close>

definition getitem :: "dataframe \<Rightarrow> string \<Rightarrow> error + series" where
  "getitem data key =
     (case map_of (df_columns data) key of
        None \<Rightarrow> Inl KeyError
      | Some v \<Rightarrow> Inr \<lparr>s_index = df_index data, s_values = v\<rparr>)"

text \<open>
  A Price Series of the specification: distinct column labels, a \<^verbatim>\<open>Close\<close> column, every
  column as long as the index, and an index that is strictly increasing by date.
\<close>

definition price_series :: "dataframe \<Rightarrow> bool" where
  "price_series data \<longleftrightarrow>
     distinct (map fst (df_columns data)) \<and>
     ''Close'' \<in> set (map fst (df_columns data)) \<and>
     list_all (\<lambda>c. length (snd c) = length (df_index data)) (df_columns data) \<and>
     sorted_wrt (<) (df_index data)"

text \<open>The \<^verbatim>\<open>Close\<close> column of a table (empty when there is none).\<close>

definition close_of :: "dataframe \<Rightarrow> fl list" where
  "close_of data = (case map_of (df_columns data) ''Close'' of None \<Rightarrow> [] | Some v \<Rightarrow> v)"

subsection \<open>The pandas and numpy operations the code calls\<close>

text \<open>
  \<^verbatim>\<open>Series.shift(1, fill_value = v)\<close>: every value moves one position down, the first
  position takes the fill value, the last value is dropped; the index is kept.
\<close>

definition shift_values :: "fl \<Rightarrow> fl list \<Rightarrow> fl list" where
  "shift_values fill xs = take (length xs) (fill # xs)"

definition series_shift :: "series \<Rightarrow> fl \<Rightarrow> series" where
  "series_shift s fill = s\<lparr>s_values := shift_values fill (s_values s)\<rparr>"

text \<open>
  Arithmetic between two series aligns them on their index. Every use below combines a
  series with one derived from it on the same index, so the alignment is the identity
  and the operation is elementwise.
\<close>

definition series_div :: "series \<Rightarrow> series \<Rightarrow> series" where
  "series_div a b = a\<lparr>s_values := map2 fdiv (s_values a) (s_values b)\<rparr>"

definition series_add_scalar :: "series \<Rightarrow> fl \<Rightarrow> series" where
  "series_add_scalar s c = s\<lparr>s_values := map (\<lambda>x. fadd x c) (s_values s)\<rparr>"

definition series_sub_scalar :: "series \<Rightarrow> fl \<Rightarrow> series" where
  "series_sub_scalar s c = s\<lparr>s_values := map (\<lambda>x. fsub x c) (s_values s)\<rparr>"

definition np_log_series :: "(real \<Rightarrow> real) \<Rightarrow> series \<Rightarrow> series" where
  "np_log_series libm_log s = s\<lparr>s_values := map (np_log libm_log) (s_values s)\<rparr>"

text \<open>
  \<^verbatim>\<open>fillna(method = 'pad')\<close>: a missing value takes the last value present before it;
  missing values before the first present one stay missing.
\<close>

fun pad_from :: "fl \<Rightarrow> fl list \<Rightarrow> fl list" where
  "pad_from prev [] = []"
| "pad_from prev (x # xs) =
     (if isnan x then prev # pad_from prev xs else x # pad_from x xs)"

definition fillna_pad :: "series \<Rightarrow> series" where
  "fillna_pad s = s\<lparr>s_values := pad_from NaN (s_values s)\<rparr>"

text \<open>\<^verbatim>\<open>np.putmask(a, mask, v)\<close>: \<open>v\<close> wherever the mask holds.\<close>

definition putmask :: "fl list \<Rightarrow> bool list \<Rightarrow> fl \<Rightarrow> fl list" where
  "putmask a msk v = map2 (\<lambda>x m. if m then v else x) a msk"

text \<open>
  \<^verbatim>\<open>Series.pct_change()\<close> with its defaults \<^verbatim>\<open>periods = 1, fill_method = 'pad'\<close>, as
  pandas defines it:
  \<^verbatim>\<open>
    data = self.fillna(method = fill_method)
    rs = data.div(data.shift(periods = periods)) - 1
    mask = isna(data.values)
    np.putmask(rs.values, mask, np.nan)
  \<close>
  (its re-indexing of \<open>rs\<close> like \<open>data\<close> is the identity on an index without duplicates).
  The shift without a fill value fills with NaN.
\<close>

definition pct_change :: "series \<Rightarrow> series" where
  "pct_change s =
     (let data = fillna_pad s;
          rs = series_sub_scalar (series_div data (series_shift data NaN)) (Fin 1);
          msk = map isnan (s_values data)
      in rs\<lparr>s_values := putmask (s_values rs) msk NaN\<rparr>)"

text \<open>
  \<^verbatim>\<open>returns[k] = v\<close> with an integer key on a series indexed by dates: the key is a
  position; \<^verbatim>\<open>IndexError\<close> when the series has no such position.
\<close>

definition series_setitem :: "series \<Rightarrow> nat \<Rightarrow> fl \<Rightarrow> error + series" where
  "series_setitem s k v =
     (if k < length (s_values s) then Inr (s\<lparr>s_values := (s_values s)[k := v]\<rparr>)
      else Inl IndexError)"

text \<open>
  \<^verbatim>\<open>Series.cumprod()\<close> with its default \<^verbatim>\<open>skipna = True\<close>: NaN entries count as 1 in the
  running product and are NaN in the result.
  \<^verbatim>\<open>
    mask = isna(vals); vals[mask] = 1
    result = np.cumprod(vals); result[mask] = np.nan
  \<close>
\<close>

fun np_cumprod_from :: "fl \<Rightarrow> fl list \<Rightarrow> fl list" where
  "np_cumprod_from acc [] = []"
| "np_cumprod_from acc (x # xs) = fmul acc x # np_cumprod_from (fmul acc x) xs"

fun np_cumprod :: "fl list \<Rightarrow> fl list" where
  "np_cumprod [] = []"
| "np_cumprod (x # xs) = x # np_cumprod_from x xs"

definition series_cumprod :: "series \<Rightarrow> series" where
  "series_cumprod s =
     (let vals = s_values s;
          msk = map isnan vals;
          result = np_cumprod (putmask vals msk (Fin 1))
      in s\<lparr>s_values := putmask result msk NaN\<rparr>)"

section \<open>The Return Calculator\<close>

text \<open>
  \<^verbatim>\<open>
  def compute_returns(data, log = False):
      series = data['Close']
      if log:
          series_lag = series.shift(1, fill_value = 0)
          returns = np.log(series_lag / series)
      else:
          returns = series.pct_change()
          returns[0] = 1
      return returns
  \<close>
  The first argument is the platform's logarithm routine (see \<open>np_log\<close>); the result is
  the series returned or the exception raised.
\<close>

definition compute_returns :: "(real \<Rightarrow> real) \<Rightarrow> dataframe \<Rightarrow> bool \<Rightarrow> error + series" where
  "compute_returns libm_log data lg =
     (case getitem data ''Close'' of
        Inl e \<Rightarrow> Inl e
      | Inr series \<Rightarrow>
          (if lg then
             (let series_lag = series_shift series (Fin 0);
                  returns = np_log_series libm_log (series_div series_lag series)
              in Inr returns)
           else
             (let returns = pct_change series
              in series_setitem returns 0 (Fin 1))))"

section \<open>The cumulative-return line renderer\<close>

text \<open>
  What the call does to the world outside it: a log line, a request to the data provider
  (symbols, start, end), a plot put on display.
\<close>

datatype event = Log string | Request "string list" date date | Show

text \<open>
  The plot object (a matplotlib \<^verbatim>\<open>Axes\<close>): what the charting library has drawn on it, which
  is the library's own business, and the title and axis labels that the code sets.
\<close>

record 'd axes =
  ax_drawn :: 'd
  ax_title :: string
  ax_weight :: string
  ax_xlabel :: string
  ax_ylabel :: string

text \<open>
  \<^verbatim>\<open>sns.lineplot(x = ..., y = ...)\<close> is outside the repository: a parameter, from the index
  and the series to the plot object it returns (the current axes of \<^verbatim>\<open>pyplot\<close>, with what
  it holds after the call) or the exception it raises.
\<close>

type_synonym 'd renderer = "date list \<Rightarrow> series \<Rightarrow> error + 'd axes"

text \<open>
  The first two statements of \<^verbatim>\<open>plot_cummulative_returns\<close>, the Cumulative Return Series:
  \<^verbatim>\<open>
      returns = compute_returns(data, log = log)
      returns = (returns + 1).cumprod()
  \<close>
\<close>

definition cumulative_return_series ::
  "(real \<Rightarrow> real) \<Rightarrow> dataframe \<Rightarrow> bool \<Rightarrow> error + series" where
  "cumulative_return_series libm_log data lg =
     (case compute_returns libm_log data lg of
        Inl e \<Rightarrow> Inl e
      | Inr returns \<Rightarrow> Inr (series_cumprod (series_add_scalar returns (Fin 1))))"

text \<open>
  \<^verbatim>\<open>
  def plot_cummulative_returns(data, tick = '', log = False, show = True):
      returns = compute_returns(data, log = log)
      returns = (returns + 1).cumprod()
      ax = sns.lineplot(x = returns.index, y = returns)
      ax.set_title('{} - Daily Cummulative Returns'.format(tick), weight = 'bold')
      ax.set_xlabel('')
      ax.set_ylabel('Cummulative returns')
      if show:
          plt.show()
      else:
          return ax
  \<close>
  The result is the events of the call and the value returned (\<open>None\<close> when the function
  falls off its end), or the exception raised.
\<close>

definition plot_cummulative_returns ::
  "(real \<Rightarrow> real) \<Rightarrow> 'd renderer \<Rightarrow> dataframe \<Rightarrow> string \<Rightarrow> bool \<Rightarrow> bool \<Rightarrow>
   error + (event list \<times> 'd axes option)" where
  "plot_cummulative_returns libm_log lineplot data tick lg show =
     (case cumulative_return_series libm_log data lg of
        Inl e \<Rightarrow> Inl e
      | Inr returns \<Rightarrow>
          (case lineplot (s_index returns) returns of
             Inl e \<Rightarrow> Inl e
           | Inr ax \<Rightarrow>
               (let ax = ax\<lparr>ax_title := tick @ '' - Daily Cummulative Returns'',
                            ax_weight := ''bold''\<rparr>;
                    ax = ax\<lparr>ax_xlabel := []\<rparr>;
                    ax = ax\<lparr>ax_ylabel := ''Cummulative returns''\<rparr>
                in if show then Inr ([Show], None) else Inr ([], Some ax))))"

section \<open>The Fetcher\<close>

text \<open>
  The column labels of the provider's table: single-level (a name and the labels), or
  multi-level (for every level its name and its value at each column).
\<close>

datatype colindex =
    Index "string option" "string list"
  | MultiIndex "(string option \<times> string list) list"

fun ncols :: "colindex \<Rightarrow> nat" where
  "ncols (Index _ ls) = length ls"
| "ncols (MultiIndex []) = 0"
| "ncols (MultiIndex (l # _)) = length (snd l)"

text \<open>The table the provider answers with: its columns are data by position.\<close>

record raw_frame =
  rf_index :: "date list"
  rf_index_name :: "string option"
  rf_columns :: colindex
  rf_data :: "fl list list"

text \<open>
  \<^verbatim>\<open>columns.get_level_values(k)\<close>: the values of level \<open>k\<close> as a single-level index (its name
  and labels); \<^verbatim>\<open>IndexError\<close> when there is no such level.
\<close>

fun get_level_values :: "colindex \<Rightarrow> nat \<Rightarrow> error + (string option \<times> string list)" where
  "get_level_values (Index nm ls) k = (if k = 0 then Inr (nm, ls) else Inl IndexError)"
| "get_level_values (MultiIndex lvls) k =
     (if k < length lvls then Inr (lvls ! k) else Inl IndexError)"

text \<open>
  \<^verbatim>\<open>df.columns = new\<close>: \<^verbatim>\<open>ValueError\<close> (length mismatch) unless there is one label per
  column.
\<close>

definition set_columns :: "raw_frame \<Rightarrow> colindex \<Rightarrow> error + raw_frame" where
  "set_columns df new =
     (if ncols new = length (rf_data df) then Inr (df\<lparr>rf_columns := new\<rparr>)
      else Inl ValueError)"

text \<open>
  \<^verbatim>\<open>df.columns = [l1, ..., ln]\<close> with a list of plain labels: from here on the table has
  single-level, unnamed column labels.
\<close>

definition set_columns_list :: "raw_frame \<Rightarrow> string list \<Rightarrow> error + dataframe" where
  "set_columns_list df new =
     (if length new = length (rf_data df) then
        Inr \<lparr>df_index = rf_index df, df_index_name = rf_index_name df,
             df_columns = zip new (rf_data df)\<rparr>
      else Inl ValueError)"

text \<open>
  \<^verbatim>\<open>df[[k1, ..., kn]]\<close>: a new table of the columns with these labels, in the order asked
  for; \<^verbatim>\<open>KeyError\<close> when a label is missing.
\<close>

definition getitem_list :: "dataframe \<Rightarrow> string list \<Rightarrow> error + dataframe" where
  "getitem_list df keys =
     (if list_all (\<lambda>k. k \<in> set (map fst (df_columns df))) keys then
        Inr (df\<lparr>df_columns :=
               concat (map (\<lambda>k. filter (\<lambda>c. fst c = k) (df_columns df)) keys)\<rparr>)
      else Inl KeyError)"

text \<open>
  The provider (\<^verbatim>\<open>pdr.get_data_yahoo\<close>) is outside the repository: a parameter, from the
  request to its table or the exception it raises.
  \<^verbatim>\<open>
  def download_stock(stock = ['AAPL'], date_start = ..., date_end = ...):
      logger.info('Download data from {}'.format(stock[0]))
      df = pdr.get_data_yahoo(symbols = stock, start = date_start, end = date_end)
      df.columns = df.columns.get_level_values(1)
      df.columns.name = None
      df.index.name = None
      df.columns = ['Adj Close', 'Close', 'High', 'Low', 'Open', 'Volume']
      df = df[['Open', 'Low', 'Close', 'High', 'Volume']]
      return df
  \<close>
  The result is the events of the call, in order, with the table returned or the
  exception raised.
\<close>

type_synonym provider = "string list \<Rightarrow> date \<Rightarrow> date \<Rightarrow> error + raw_frame"

definition normalise :: "raw_frame \<Rightarrow> error + dataframe" where
  "normalise df =
     (case get_level_values (rf_columns df) 1 of
        Inl e \<Rightarrow> Inl e
      | Inr (nm, labels) \<Rightarrow>
          (case set_columns df (Index nm labels) of
             Inl e \<Rightarrow> Inl e
           | Inr df \<Rightarrow>
               (let df = df\<lparr>rf_columns := Index None labels\<rparr>;
                    df = df\<lparr>rf_index_name := None\<rparr>
                in case set_columns_list df
                          [''Adj Close'', ''Close'', ''High'', ''Low'', ''Open'', ''Volume''] of
                     Inl e \<Rightarrow> Inl e
                   | Inr df \<Rightarrow>
                       getitem_list df [''Open'', ''Low'', ''Close'', ''High'', ''Volume''])))"

definition download_stock ::
  "provider \<Rightarrow> string list \<Rightarrow> date \<Rightarrow> date \<Rightarrow> event list \<times> (error + dataframe)" where
  "download_stock get_data_yahoo stock date_start date_end =
     (case stock of
        [] \<Rightarrow> ([], Inl IndexError)
      | s0 # _ \<Rightarrow>
          (let events = [Log (''Download data from '' @ s0), Request stock date_start date_end]
           in case get_data_yahoo stock date_start date_end of
                Inl e \<Rightarrow> (events, Inl e)
              | Inr df \<Rightarrow> (events, normalise df)))"

text \<open>
  A provider for the examples, shaped like the answer of \<^verbatim>\<open>get_data_yahoo\<close> for a list of
  symbols: one row, and for every attribute (in the order \<^verbatim>\<open>Adj Close, Close, High, Low,
  Open, Volume\<close>) one column per symbol, labelled on the levels \<^verbatim>\<open>Attributes\<close> and
  \<^verbatim>\<open>Symbols\<close>; column \<open>j\<close> holds the number \<open>j\<close>.
\<close>

definition attributes :: "string list" where
  "attributes = [''Adj Close'', ''Close'', ''High'', ''Low'', ''Open'', ''Volume'']"

definition example_provider :: provider where
  "example_provider symbols date_start date_end =
     Inr \<lparr>rf_index = [date_start], rf_index_name = Some ''Date'',
          rf_columns = MultiIndex
            [(Some ''Attributes'', concat (map (\<lambda>a. map (\<lambda>_. a) symbols) attributes)),
             (Some ''Symbols'', concat (map (\<lambda>_. symbols) attributes))],
          rf_data = map (\<lambda>j. [Fin (real j)]) [0 ..< 6 * length symbols]\<rparr>"

section \<open>The same functions on a store of shared buffers\<close>

text \<open>
  In Python a table and the series taken from it are objects that can share their data:
  \<^verbatim>\<open>data['Close']\<close> is a series on the very buffer of the table's column, so writing
  into that series would write into the table. To state what a call leaves untouched, the
  values live in a store of buffers, a table and a series hold addresses, and every
  operation says whether it shares a buffer, allocates a new one or writes in place. An
  address is a position of the store; allocation appends.
\<close>

type_synonym addr = nat
type_synonym store = "fl list list"

record hseries =
  hs_index :: "date list"
  hs_buf :: addr

record hframe =
  hf_index :: "date list"
  hf_index_name :: "string option"
  hf_columns :: "(string \<times> addr) list"

definition alloc :: "store \<Rightarrow> fl list \<Rightarrow> addr \<times> store" where
  "alloc h v = (length h, h @ [v])"

text \<open>What a table and a series hold in a given store.\<close>

definition frame_view :: "store \<Rightarrow> hframe \<Rightarrow> dataframe" where
  "frame_view h f =
     \<lparr>df_index = hf_index f, df_index_name = hf_index_name f,
      df_columns = map (\<lambda>c. (fst c, h ! snd c)) (hf_columns f)\<rparr>"

definition series_view :: "store \<Rightarrow> hseries \<Rightarrow> series" where
  "series_view h s = \<lparr>s_index = hs_index s, s_values = h ! hs_buf s\<rparr>"

text \<open>Every column of the table is a buffer of the store.\<close>

definition frame_in_store :: "store \<Rightarrow> hframe \<Rightarrow> bool" where
  "frame_in_store h f \<longleftrightarrow> list_all (\<lambda>c. snd c < length h) (hf_columns f)"

text \<open>\<^verbatim>\<open>data[key]\<close> shares the column's buffer: nothing is allocated.\<close>

definition h_getitem :: "hframe \<Rightarrow> string \<Rightarrow> error + hseries" where
  "h_getitem data key =
     (case map_of (hf_columns data) key of
        None \<Rightarrow> Inl KeyError
      | Some a \<Rightarrow> Inr \<lparr>hs_index = hf_index data, hs_buf = a\<rparr>)"

text \<open>
  \<^verbatim>\<open>shift\<close>, \<^verbatim>\<open>/\<close>, \<^verbatim>\<open>+\<close>, \<^verbatim>\<open>np.log\<close>, \<^verbatim>\<open>pct_change\<close> and \<^verbatim>\<open>cumprod\<close> return a new
  series: the result is computed from what the operands hold and put in a fresh buffer.
\<close>

definition h_new :: "store \<Rightarrow> series \<Rightarrow> hseries \<times> store" where
  "h_new h s = (let (a, h') = alloc h (s_values s) in (\<lparr>hs_index = s_index s, hs_buf = a\<rparr>, h'))"

definition h_shift :: "store \<Rightarrow> hseries \<Rightarrow> fl \<Rightarrow> hseries \<times> store" where
  "h_shift h s fill = h_new h (series_shift (series_view h s) fill)"

definition h_div :: "store \<Rightarrow> hseries \<Rightarrow> hseries \<Rightarrow> hseries \<times> store" where
  "h_div h a b = h_new h (series_div (series_view h a) (series_view h b))"

definition h_add_scalar :: "store \<Rightarrow> hseries \<Rightarrow> fl \<Rightarrow> hseries \<times> store" where
  "h_add_scalar h s c = h_new h (series_add_scalar (series_view h s) c)"

definition h_np_log :: "store \<Rightarrow> (real \<Rightarrow> real) \<Rightarrow> hseries \<Rightarrow> hseries \<times> store" where
  "h_np_log h libm_log s = h_new h (np_log_series libm_log (series_view h s))"

definition h_pct_change :: "store \<Rightarrow> hseries \<Rightarrow> hseries \<times> store" where
  "h_pct_change h s = h_new h (pct_change (series_view h s))"

definition h_cumprod :: "store \<Rightarrow> hseries \<Rightarrow> hseries \<times> store" where
  "h_cumprod h s = h_new h (series_cumprod (series_view h s))"

text \<open>\<^verbatim>\<open>s[k] = v\<close> writes in place, into the buffer the series holds.\<close>

definition h_setitem :: "store \<Rightarrow> hseries \<Rightarrow> nat \<Rightarrow> fl \<Rightarrow> error option \<times> store" where
  "h_setitem h s k v =
     (if k < length (h ! hs_buf s) then (None, h[hs_buf s := (h ! hs_buf s)[k := v]])
      else (Some IndexError, h))"

text \<open>\<^verbatim>\<open>compute_returns\<close>, statement by statement, with the store it leaves.\<close>

definition h_compute_returns ::
  "store \<Rightarrow> (real \<Rightarrow> real) \<Rightarrow> hframe \<Rightarrow> bool \<Rightarrow> (error + hseries) \<times> store" where
  "h_compute_returns h libm_log data lg =
     (case h_getitem data ''Close'' of
        Inl e \<Rightarrow> (Inl e, h)
      | Inr series \<Rightarrow>
          (if lg then
             (let (series_lag, h) = h_shift h series (Fin 0);
                  (ratio, h) = h_div h series_lag series;
                  (returns, h) = h_np_log h libm_log ratio
              in (Inr returns, h))
           else
             (let (returns, h) = h_pct_change h series
              in case h_setitem h returns 0 (Fin 1) of
                   (Some e, h) \<Rightarrow> (Inl e, h)
                 | (None, h) \<Rightarrow> (Inr returns, h))))"

text \<open>
  \<^verbatim>\<open>plot_cummulative_returns\<close> with the store it leaves. The charting library reads what
  the series holds; setting the title and the labels changes the plot object only.
\<close>

definition h_plot_cummulative_returns ::
  "store \<Rightarrow> (real \<Rightarrow> real) \<Rightarrow> 'd renderer \<Rightarrow> hframe \<Rightarrow> string \<Rightarrow> bool \<Rightarrow> bool \<Rightarrow>
   (error + (event list \<times> 'd axes option)) \<times> store" where
  "h_plot_cummulative_returns h libm_log lineplot data tick lg show =
     (case h_compute_returns h libm_log data lg of
        (Inl e, h) \<Rightarrow> (Inl e, h)
      | (Inr returns, h) \<Rightarrow>
          (let (plus_one, h) = h_add_scalar h returns (Fin 1);
               (returns, h) = h_cumprod h plus_one
           in case lineplot (hs_index returns) (series_view h returns) of
                Inl e \<Rightarrow> (Inl e, h)
              | Inr ax \<Rightarrow>
                  (let ax = ax\<lparr>ax_title := tick @ '' - Daily Cummulative Returns'',
                               ax_weight := ''bold''\<rparr>;
                       ax = ax\<lparr>ax_xlabel := []\<rparr>;
                       ax = ax\<lparr>ax_ylabel := ''Cummulative returns''\<rparr>
                   in if show then (Inr ([Show], None), h) else (Inr ([], Some ax), h))))"

section \<open>Example tables\<close>

text \<open>
  A price table on the dates \<open>0, 1, 2, ...\<close> with the given closing prices (and, to have
  all five columns, the same prices as open, low and high, and a constant volume).
\<close>

definition prices_of :: "fl list \<Rightarrow> dataframe" where
  "prices_of closes =
     \<lparr>df_index = [0 ..< length closes], df_index_name = None,
      df_columns = [(''Open'', closes), (''Low'', closes), (''Close'', closes),
                    (''High'', closes), (''Volume'', map (\<lambda>_. Fin 1000) closes)]\<rparr>"

text \<open>The same table in a store: its five columns are the buffers at addresses 0 to 4.\<close>

definition store_of :: "fl list \<Rightarrow> store" where
  "store_of closes = [closes, closes, closes, closes, map (\<lambda>_. Fin 1000) closes]"

definition hframe_of :: "fl list \<Rightarrow> hframe" where
  "hframe_of closes =
     \<lparr>hf_index = [0 ..< length closes], hf_index_name = None,
      hf_columns = [(''Open'', 0), (''Low'', 1), (''Close'', 2), (''High'', 3), (''Volume'', 4)]\<rparr>"

text \<open>
  A charting library for the examples: it draws every point that is not NaN, and raises
  \<^verbatim>\<open>KeyError\<close> when there is none to draw from a non-empty series.
\<close>

definition example_lineplot :: "(date \<times> fl) list renderer" where
  "example_lineplot x y =
     (let points = filter (\<lambda>p. \<not> isnan (snd p)) (zip x (s_values y))
      in if points = [] \<and> s_values y \<noteq> [] then Inl KeyError
         else Inr \<lparr>ax_drawn = points, ax_title = [], ax_weight = ''normal'',
                   ax_xlabel = [], ax_ylabel = []\<rparr>)"

section \<open>Properties\<close>

subsection \<open>Rounding\<close>

lemma pow2_powr: "pow2 e = 2 powr (of_int e)"
proof (cases "0 \<le> e")
  case True
  then have "2 powr (of_int e) = (2::real) powr (real (nat e))" by simp
  also have "\<dots> = 2 ^ nat e" by (simp only: powr_realpow zero_less_numeral)
  finally show ?thesis using True by (simp add: pow2_def)
next
  case False
  then have "(2::real) powr (of_int e) = 2 powr (- real (nat (- e)))" by simp
  also have "\<dots> = 1 / 2 powr (real (nat (- e)))" by (simp only: powr_minus_divide)
  also have "\<dots> = 1 / 2 ^ nat (- e)" by (simp only: powr_realpow zero_less_numeral)
  finally show ?thesis using False by (simp add: pow2_def)
qed

lemma pow2_pos: "0 < pow2 e"
  by (simp add: pow2_powr)

text \<open>The exponent of a number between two consecutive powers of two.\<close>

lemma expo_eqI:
  assumes "- 1022 \<le> e" and "pow2 e \<le> \<bar>x\<bar>" and "\<bar>x\<bar> < pow2 (e + 1)"
  shows "expo x = e"
proof -
  from assms(2) pow2_pos [of e] have pos: "0 < \<bar>x\<bar>" by linarith
  have "of_int e \<le> log 2 \<bar>x\<bar>"
    using assms(2) pos by (simp add: pow2_powr le_log_iff)
  moreover have "log 2 \<bar>x\<bar> < of_int (e + 1)"
    using assms(3) pos by (simp add: pow2_powr log_less_iff)
  ultimately have "\<lfloor>log 2 \<bar>x\<bar>\<rfloor> = e"
    by (simp add: floor_eq_iff)
  with assms(1) show ?thesis by (simp add: expo_def)
qed

text \<open>In the subnormal range the exponent stays at its minimum.\<close>

lemma expo_small:
  assumes "x \<noteq> 0" and "\<bar>x\<bar> < pow2 (- 1021)"
  shows "expo x = - 1022"
proof -
  from assms have pos: "0 < \<bar>x\<bar>" by simp
  have "log 2 \<bar>x\<bar> < of_int (- 1021)"
    using assms(2) pos by (simp add: pow2_powr log_less_iff)
  then have "\<lfloor>log 2 \<bar>x\<bar>\<rfloor> < - 1021"
    by (simp add: floor_less_iff)
  then show ?thesis by (simp add: expo_def)
qed

lemma round_even_eqI:
  assumes "of_int m - 1 / 2 < y" and "y < of_int m + 1 / 2"
  shows "round_even y = m"
proof (cases "of_int m \<le> y")
  case True
  with assms(2) have "\<lfloor>y\<rfloor> = m" by (simp add: floor_eq_iff)
  with assms(2) show ?thesis by (simp add: round_even_def Let_def)
next
  case False
  with assms(1) have f: "\<lfloor>y\<rfloor> = m - 1" by (simp add: floor_eq_iff)
  from assms(1) have "1 / 2 < y - of_int (m - 1)" by simp
  with f show ?thesis by (simp add: round_even_def Let_def)
qed

lemma round_even_of_int: "round_even (of_int m) = m"
  by (rule round_even_eqI) simp_all

text \<open>Rounding a given number, from its exponent and the nearest multiple.\<close>

lemma rnd_expoI:
  assumes "expo x = e"
    and "of_int m - 1 / 2 < x / pow2 (e - 52)" and "x / pow2 (e - 52) < of_int m + 1 / 2"
  shows "rnd x =
         (if 2 ^ 1024 \<le> \<bar>of_int m * pow2 (e - 52)\<bar> then inf_of (0 < x)
          else if m = 0 then zero_of (x < 0)
          else Fin (of_int m * pow2 (e - 52)))"
proof -
  have m: "round_even (x / pow2 (e - 52)) = m" using assms(2,3) by (rule round_even_eqI)
  have nz: "of_int m * pow2 (e - 52) = 0 \<longleftrightarrow> m = 0"
    using pow2_pos [of "e - 52"] by simp
  show ?thesis
    unfolding rnd_def Let_def assms(1) m using nz by simp
qed

lemma rnd_eqI:
  assumes "- 1022 \<le> e" and "pow2 e \<le> \<bar>x\<bar>" and "\<bar>x\<bar> < pow2 (e + 1)"
    and "of_int m - 1 / 2 < x / pow2 (e - 52)" and "x / pow2 (e - 52) < of_int m + 1 / 2"
    and "\<bar>of_int m * pow2 (e - 52)\<bar> < 2 ^ 1024" and "m \<noteq> 0"
  shows "rnd x = Fin (of_int m * pow2 (e - 52))"
  using rnd_expoI [OF expo_eqI [OF assms(1-3)] assms(4,5)] assms(6,7) by simp

lemma rnd_one: "rnd 1 = Fin 1"
  using rnd_eqI [of 0 1 "2 ^ 52"] by (simp add: pow2_def)

lemma rnd_minus_one: "rnd (- 1) = Fin (- 1)"
  using rnd_eqI [of 0 "- 1" "- (2 ^ 52)"] by (simp add: pow2_def)

lemma rnd_two: "rnd 2 = Fin 2"
  using rnd_eqI [of 1 2 "2 ^ 52"] by (simp add: pow2_def)

lemma rnd_half: "rnd (1 / 2) = Fin (1 / 2)"
  using rnd_eqI [of "- 1" "1 / 2" "2 ^ 52"] by (simp add: pow2_def)

lemma rnd_not_nan: "\<not> isnan (rnd x)"
  by (simp add: rnd_def Let_def inf_of_def zero_of_def)

text \<open>A result too large is an infinity; a result too small is a zero with its sign.\<close>

lemma rnd_overflow: "rnd (2 ^ 1200) = PInf"
  using rnd_expoI [of "2 ^ 1200" 1200 "2 ^ 52", OF expo_eqI]
  by (simp add: pow2_def inf_of_def)

lemma rnd_underflow: "rnd (1 / 2 ^ 1200) = Fin 0" "rnd (- (1 / 2 ^ 1200)) = NZero"
  using rnd_expoI [of "1 / 2 ^ 1200" "- 1022" 0, OF expo_small]
    rnd_expoI [of "- (1 / 2 ^ 1200)" "- 1022" 0, OF expo_small]
  by (simp_all add: pow2_def zero_of_def)

subsection \<open>Values\<close>

lemma isnan_iff: "isnan x \<longleftrightarrow> x = NaN"
  by (cases x) simp_all

lemma fsub_NaN: "fsub NaN c = NaN"
  by (simp add: fsub_def fadd_def)

lemma fdiv_NaN: "fdiv NaN b = NaN"
  by (simp add: fdiv_def)

lemma isnan_fadd_one: "isnan (fadd x (Fin 1)) \<longleftrightarrow> isnan x"
  by (cases x) (simp_all add: fadd_def Let_def rnd_not_nan zero_of_def)

lemma fadd_NInf_one: "fadd NInf (Fin 1) = NInf"
  by (simp add: fadd_def)

lemma fmul_not_finite: "\<not> isfinite a \<Longrightarrow> \<not> isfinite (fmul a x)"
  by (cases a; cases x) (simp_all add: fmul_def inf_of_def)

lemma log_zero_over:
  "is_zero z \<Longrightarrow> np_log libm_log (fdiv z c) = (if isnan c \<or> is_zero c then NaN else NInf)"
  by (cases z; cases c) (simp_all add: fdiv_def zero_of_def)

lemma log_over_zero_not_finite: "is_zero z \<Longrightarrow> \<not> isfinite (np_log libm_log (fdiv x z))"
  by (cases z; cases x) (simp_all add: fdiv_def inf_of_def)

lemma zero_over_minus_one:
  "is_zero z \<Longrightarrow> fsub (fdiv z p) (Fin 1) = (if isnan p \<or> is_zero p then NaN else Fin (- 1))"
  by (cases z; cases p) (simp_all add: fdiv_def fsub_def fadd_def zero_of_def rnd_minus_one)

text \<open>
  What the arithmetic does where an exact computation would not: the quotient of a large
  by a small double overflows, that of a small by a large one underflows to zero (whose
  logarithm is minus infinity), and a division by minus zero gives the infinity of the
  opposite sign.
\<close>

lemma fdiv_overflow: "fdiv (Fin (2 ^ 600)) (Fin (1 / 2 ^ 600)) = PInf"
  using rnd_overflow by (simp add: fdiv_def)

lemma fdiv_underflow:
  "fdiv (Fin (1 / 2 ^ 600)) (Fin (2 ^ 600)) = Fin 0"
  "np_log libm_log (fdiv (Fin (1 / 2 ^ 600)) (Fin (2 ^ 600))) = NInf"
proof -
  show "fdiv (Fin (1 / 2 ^ 600)) (Fin (2 ^ 600)) = Fin 0"
    using rnd_underflow(1) by (simp add: fdiv_def)
  then show "np_log libm_log (fdiv (Fin (1 / 2 ^ 600)) (Fin (2 ^ 600))) = NInf"
    by simp
qed

lemma fdiv_minus_zero:
  "fdiv (Fin 5) NZero = NInf" "fsub (fdiv (Fin 5) NZero) (Fin 1) = NInf"
  by (simp_all add: fdiv_def fsub_def fadd_def inf_of_def)

subsection \<open>The library operations\<close>

lemma length_pad_from: "length (pad_from p xs) = length xs"
  by (induction xs arbitrary: p) simp_all

lemma pad_from_nth_present:
  "i < length xs \<Longrightarrow> \<not> isnan (xs ! i) \<Longrightarrow> pad_from p xs ! i = xs ! i"
proof (induction xs arbitrary: p i)
  case Nil
  then show ?case by simp
next
  case (Cons x xs)
  then show ?case by (cases i) simp_all
qed

lemma length_shift_values: "length (shift_values f xs) = length xs"
  by (simp add: shift_values_def)

lemma shift_values_nth:
  "i < length xs \<Longrightarrow> shift_values f xs ! i = (if i = 0 then f else xs ! (i - 1))"
  by (cases i) (simp_all add: shift_values_def)

lemma length_putmask: "length (putmask a m v) = min (length a) (length m)"
  by (simp add: putmask_def)

lemma putmask_nth:
  "i < length a \<Longrightarrow> i < length m \<Longrightarrow> putmask a m v ! i = (if m ! i then v else a ! i)"
  by (simp add: putmask_def)

lemma putmask_no_nan:
  "list_all (\<lambda>x. \<not> isnan x) xs \<Longrightarrow> putmask xs (map isnan xs) v = xs"
  by (rule nth_equalityI) (simp_all add: length_putmask putmask_nth list_all_length)

lemma length_np_cumprod_from: "length (np_cumprod_from acc xs) = length xs"
  by (induction xs arbitrary: acc) simp_all

lemma np_cumprod_from_first: "xs \<noteq> [] \<Longrightarrow> np_cumprod_from acc xs ! 0 = fmul acc (xs ! 0)"
  by (cases xs) simp_all

lemma np_cumprod_from_step:
  "Suc i < length xs \<Longrightarrow>
   np_cumprod_from acc xs ! Suc i = fmul (np_cumprod_from acc xs ! i) (xs ! Suc i)"
proof (induction xs arbitrary: acc i)
  case Nil
  then show ?case by simp
next
  case (Cons x xs)
  show ?case
  proof (cases i)
    case 0
    with Cons.prems show ?thesis by (cases xs) simp_all
  next
    case (Suc j)
    with Cons.prems have "Suc j < length xs" by simp
    from Cons.IH [OF this] Suc show ?thesis by simp
  qed
qed

lemma np_cumprod_from_not_finite:
  "\<not> isfinite acc \<Longrightarrow> list_all (\<lambda>y. \<not> isfinite y) (np_cumprod_from acc xs)"
  by (induction xs arbitrary: acc) (simp_all add: fmul_not_finite)

lemma length_np_cumprod: "length (np_cumprod xs) = length xs"
  by (cases xs) (simp_all add: length_np_cumprod_from)

lemma np_cumprod_first: "xs \<noteq> [] \<Longrightarrow> np_cumprod xs ! 0 = xs ! 0"
  by (cases xs) simp_all

lemma np_cumprod_step:
  assumes "1 \<le> i" and "i < length xs"
  shows "np_cumprod xs ! i = fmul (np_cumprod xs ! (i - 1)) (xs ! i)"
proof (cases xs)
  case Nil
  with assms show ?thesis by simp
next
  case (Cons x ys)
  from assms obtain j where j: "i = Suc j" by (cases i) auto
  show ?thesis
  proof (cases j)
    case 0
    with Cons j assms show ?thesis by (simp add: np_cumprod_from_first)
  next
    case (Suc k)
    with Cons j assms have "Suc k < length ys" by simp
    from np_cumprod_from_step [OF this, of x] Cons j Suc show ?thesis by simp
  qed
qed

lemma length_series_cumprod: "length (s_values (series_cumprod s)) = length (s_values s)"
  by (simp add: series_cumprod_def Let_def length_putmask length_np_cumprod)

lemma series_cumprod_nan:
  "i < length (s_values s) \<Longrightarrow> isnan (s_values s ! i) \<Longrightarrow> s_values (series_cumprod s) ! i = NaN"
  by (simp add: series_cumprod_def Let_def length_putmask putmask_nth length_np_cumprod)

lemma series_cumprod_no_nan:
  "list_all (\<lambda>x. \<not> isnan x) (s_values s) \<Longrightarrow>
   s_values (series_cumprod s) = np_cumprod (s_values s)"
proof -
  assume a: "list_all (\<lambda>x. \<not> isnan x) (s_values s)"
  have "putmask (np_cumprod (s_values s)) (map isnan (s_values s)) NaN = np_cumprod (s_values s)"
    using a
    by (intro nth_equalityI)
      (simp_all add: length_putmask putmask_nth length_np_cumprod
        list_all_length)
  with a show ?thesis
    by (simp add: series_cumprod_def Let_def putmask_no_nan)
qed

subsection \<open>Tables\<close>

lemma getitem_close:
  "price_series data \<Longrightarrow>
   getitem data ''Close'' = Inr \<lparr>s_index = df_index data, s_values = close_of data\<rparr>"
  by (auto simp: price_series_def getitem_def close_of_def split: option.splits
      dest: map_of_eq_None_iff[THEN iffD1])

lemma length_close_of:
  "price_series data \<Longrightarrow> length (close_of data) = length (df_index data)"
  by (auto simp: price_series_def close_of_def list_all_iff split: option.splits
      dest!: map_of_SomeD)

lemma price_series_prices_of: "price_series (prices_of closes)"
  by (simp add: price_series_def prices_of_def sorted_wrt_upt)

lemma close_of_prices_of: "close_of (prices_of closes) = closes"
  by (simp add: close_of_def prices_of_def)

lemma index_prices_of: "df_index (prices_of closes) = [0 ..< length closes]"
  by (simp add: prices_of_def)

subsection \<open>The two modes of the Return Calculator\<close>

lemma length_pct_change: "length (s_values (pct_change s)) = length (s_values s)"
  by (simp add: pct_change_def Let_def fillna_pad_def series_sub_scalar_def series_div_def
      series_shift_def length_putmask length_pad_from length_shift_values)

lemma index_pct_change: "s_index (pct_change s) = s_index s"
  by (simp add: pct_change_def Let_def fillna_pad_def series_sub_scalar_def series_div_def
      series_shift_def)

lemma pct_change_nth:
  "i < length (s_values s) \<Longrightarrow>
   s_values (pct_change s) ! i =
     fsub (fdiv (pad_from NaN (s_values s) ! i)
             (if i = 0 then NaN else pad_from NaN (s_values s) ! (i - 1))) (Fin 1)"
  by (simp add: pct_change_def Let_def fillna_pad_def series_sub_scalar_def series_div_def
      series_shift_def putmask_nth length_pad_from length_shift_values shift_values_nth
      isnan_iff fsub_NaN fdiv_NaN)

text \<open>Logarithmic mode never raises on a Price Series; its result, entry by entry.\<close>

lemma compute_returns_log:
  assumes "price_series data"
  shows "compute_returns libm_log data True =
         Inr \<lparr>s_index = df_index data,
              s_values = map (np_log libm_log) (map2 fdiv (shift_values (Fin 0) (close_of data)) (close_of data))\<rparr>"
  using assms
  by (simp add: compute_returns_def getitem_close Let_def np_log_series_def series_div_def
      series_shift_def)

lemma log_values_nth:
  "i < length xs \<Longrightarrow>
   map (np_log libm_log) (map2 fdiv (shift_values (Fin 0) xs) xs) ! i =
     np_log libm_log (fdiv (if i = 0 then Fin 0 else xs ! (i - 1)) (xs ! i))"
  by (simp add: length_shift_values shift_values_nth)

text \<open>Simple mode raises exactly on the empty Price Series.\<close>

lemma compute_returns_simple:
  assumes "price_series data"
  shows "compute_returns libm_log data False =
         (if df_index data = [] then Inl IndexError
          else Inr \<lparr>s_index = df_index data,
                    s_values = (s_values (pct_change
                       \<lparr>s_index = df_index data, s_values = close_of data\<rparr>))[0 := Fin 1]\<rparr>)"
proof -
  let ?s = "\<lparr>s_index = df_index data, s_values = close_of data\<rparr>"
  have len: "length (s_values (pct_change ?s)) = length (df_index data)"
    using assms by (simp add: length_pct_change length_close_of)
  have eq: "pct_change ?s\<lparr>s_values := (s_values (pct_change ?s))[0 := Fin 1]\<rparr> =
        \<lparr>s_index = df_index data, s_values = (s_values (pct_change ?s))[0 := Fin 1]\<rparr>"
    using index_pct_change [of ?s] by (cases "pct_change ?s") simp
  have cr: "compute_returns libm_log data False = series_setitem (pct_change ?s) 0 (Fin 1)"
    using assms by (simp add: compute_returns_def getitem_close Let_def)
  show ?thesis
  proof (cases "df_index data = []")
    case True
    with len have "\<not> 0 < length (s_values (pct_change ?s))" by simp
    then have "series_setitem (pct_change ?s) 0 (Fin 1) = Inl IndexError"
      unfolding series_setitem_def by (rule if_not_P)
    with cr True show ?thesis by simp
  next
    case False
    with len have "0 < length (s_values (pct_change ?s))" by simp
    then have "series_setitem (pct_change ?s) 0 (Fin 1) =
        Inr (pct_change ?s\<lparr>s_values := (s_values (pct_change ?s))[0 := Fin 1]\<rparr>)"
      unfolding series_setitem_def by (rule if_P)
    with cr False eq show ?thesis by simp
  qed
qed

subsection \<open>The doubles of the example \<open>Close = [100, 110, 99]\<close>\<close>

lemma rnd_example:
  "rnd (11 / 10) = Fin (2476979795053773 / 2251799813685248)"
  "rnd (225179981368525 / 2251799813685248) = Fin (225179981368525 / 2251799813685248)"
  "rnd (9 / 10) = Fin (8106479329266893 / 9007199254740992)"
  "rnd (- (900719925474099 / 9007199254740992)) = Fin (- (900719925474099 / 9007199254740992))"
  "rnd (2476979795053773 / 2251799813685248) = Fin (2476979795053773 / 2251799813685248)"
  "rnd (8106479329266893 / 9007199254740992) = Fin (8106479329266893 / 9007199254740992)"
  "rnd (2476979795053773 / 1125899906842624) = Fin (2476979795053773 / 1125899906842624)"
  "rnd (20079585507615155836399603637289 / 10141204801825835211973625643008) =
     Fin (8917127262193583 / 4503599627370496)"
  using rnd_eqI [of 0 "11 / 10" 4953959590107546]
    rnd_eqI [of "- 4" "225179981368525 / 2251799813685248" 7205759403792800]
    rnd_eqI [of "- 1" "9 / 10" 8106479329266893]
    rnd_eqI [of "- 4" "- (900719925474099 / 9007199254740992)" "- 7205759403792792"]
    rnd_eqI [of 0 "2476979795053773 / 2251799813685248" 4953959590107546]
    rnd_eqI [of "- 1" "8106479329266893 / 9007199254740992" 8106479329266893]
    rnd_eqI [of 1 "2476979795053773 / 1125899906842624" 4953959590107546]
    rnd_eqI [of 0 "20079585507615155836399603637289 / 10141204801825835211973625643008"
      8917127262193583]
  by (simp_all add: pow2_def)

lemmas compute_returns_simps =
  prices_of_def compute_returns_def getitem_def pct_change_def fillna_pad_def
  series_shift_def shift_values_def series_div_def series_sub_scalar_def putmask_def
  series_setitem_def np_log_series_def Let_def
  fdiv_def fsub_def fadd_def zero_of_def inf_of_def rnd_one rnd_minus_one

lemma example_returns:
  "compute_returns libm_log (prices_of [Fin 100, Fin 110, Fin 99]) False =
     Inr \<lparr>s_index = [0, 1, 2],
          s_values = [Fin 1, Fin (225179981368525 / 2251799813685248),
                      Fin (- (900719925474099 / 9007199254740992))]\<rparr>"
  by (simp add: compute_returns_simps rnd_example)

lemma example_cumulative:
  "cumulative_return_series libm_log (prices_of [Fin 100, Fin 110, Fin 99]) False =
     Inr \<lparr>s_index = [0, 1, 2],
          s_values = [Fin 2, Fin (2476979795053773 / 1125899906842624),
                      Fin (8917127262193583 / 4503599627370496)]\<rparr>"
  by (simp add: cumulative_return_series_def example_returns series_add_scalar_def
      series_cumprod_def putmask_def Let_def fadd_def fmul_def rnd_two rnd_example)

text \<open>
  The same on prices that overflow, underflow or carry a minus zero: the results are
  those of the arithmetic of doubles, not of the reals.
\<close>

lemma extreme_returns:
  "compute_returns libm_log (prices_of [Fin (1 / 2 ^ 600), Fin (2 ^ 600)]) False =
     Inr \<lparr>s_index = [0, 1], s_values = [Fin 1, PInf]\<rparr>"
  "compute_returns libm_log (prices_of [Fin (1 / 2 ^ 600), Fin (2 ^ 600)]) True =
     Inr \<lparr>s_index = [0, 1], s_values = [NInf, NInf]\<rparr>"
  "compute_returns libm_log (prices_of [Fin 5, NZero, Fin 5]) False =
     Inr \<lparr>s_index = [0, 1, 2], s_values = [Fin 1, Fin (- 1), NInf]\<rparr>"
  using rnd_overflow rnd_underflow(1)
  by (simp_all add: compute_returns_simps)

section \<open>The claims\<close>

text \<open>
  Claim C1. In logarithmic mode, on every Price Series and at every index \<open>i \<ge> 1\<close>, the
  Return Calculator returns \<open>log (Close[i-1] / Close[i])\<close>: the logarithm of the inverse
  ratio (previous over current), not of \<open>Close[i] / Close[i-1]\<close>. The division is that of
  doubles and the logarithm is \<^verbatim>\<open>np.log\<close>: when the quotient is a positive finite double
  \<open>q\<close>, the entry is the platform's logarithm of \<open>q\<close>.
\<close>

theorem log_returns_inverse_ratio:
  assumes "price_series data" and "1 \<le> i" and "i < length (df_index data)"
  shows "\<exists>r. compute_returns libm_log data True = Inr r \<and>
           s_values r ! i =
             np_log libm_log (fdiv (close_of data ! (i - 1)) (close_of data ! i)) \<and>
           (\<forall>q. fdiv (close_of data ! (i - 1)) (close_of data ! i) = Fin q \<and> 0 < q \<longrightarrow>
              s_values r ! i = Fin (libm_log q))"
proof -
  let ?r = "\<lparr>s_index = df_index data,
             s_values = map (np_log libm_log)
               (map2 fdiv (shift_values (Fin 0) (close_of data)) (close_of data))\<rparr>"
  from assms have i: "i < length (close_of data)" "i \<noteq> 0"
    by (simp_all add: length_close_of)
  have nth: "s_values ?r ! i =
      np_log libm_log (fdiv (close_of data ! (i - 1)) (close_of data ! i))"
    using i log_values_nth [of i "close_of data" libm_log] by simp
  have pos: "s_values ?r ! i = Fin (libm_log q)"
    if "fdiv (close_of data ! (i - 1)) (close_of data ! i) = Fin q \<and> 0 < q" for q
    using that nth by simp
  from compute_returns_log [OF assms(1), of libm_log] nth pos show ?thesis
    by (intro exI [of _ ?r]) blast
qed

theorem log_returns_inverse_ratio_witness:
  "price_series (prices_of [Fin 1, Fin 2]) \<and>
   (\<exists>r. compute_returns ln (prices_of [Fin 1, Fin 2]) True = Inr r \<and>
        s_values r ! 1 = Fin (ln (1 / 2)) \<and>
        np_log ln (fdiv (Fin 2) (Fin 1)) = Fin (ln 2) \<and>
        s_values r ! 1 \<noteq> np_log ln (fdiv (Fin 2) (Fin 1)))"
proof -
  have q: "fdiv (Fin 1) (Fin 2) = Fin (1 / 2)" "fdiv (Fin 2) (Fin 1) = Fin 2"
    by (simp_all add: fdiv_def rnd_half rnd_two)
  have ne: "ln (1 / 2) \<noteq> ln (2::real)"
    by (simp add: ln_div)
  from log_returns_inverse_ratio [of "prices_of [Fin 1, Fin 2]" 1 ln]
  show ?thesis
    using q ne
    by (auto simp: price_series_prices_of close_of_prices_of index_prices_of)
qed

lemma simple_values_nth:
  assumes "price_series data" and "1 \<le> i" and "i < length (df_index data)"
  shows "(s_values (pct_change \<lparr>s_index = df_index data, s_values = close_of data\<rparr>))[0 := Fin 1] ! i =
         fsub (fdiv (pad_from NaN (close_of data) ! i) (pad_from NaN (close_of data) ! (i - 1))) (Fin 1)"
proof -
  from assms have i: "i < length (close_of data)" "i \<noteq> 0"
    by (simp_all add: length_close_of)
  then show ?thesis
    using pct_change_nth [of i "\<lparr>s_index = df_index data, s_values = close_of data\<rparr>"]
    by simp
qed

text \<open>
  Claim C2, as amended. In simple mode the Return Calculator raises \<^verbatim>\<open>IndexError\<close> on an
  empty Price Series. On a non-empty one it returns a series whose entry at index 0 is 1
  and whose entry at every index \<open>i \<ge> 1\<close> is \<open>P[i] / P[i-1] - 1\<close> in the arithmetic of
  doubles, where \<open>P\<close> is the Close column with its missing values forward-filled; that is
  \<open>Close[i] / Close[i-1] - 1\<close> whenever neither \<open>Close[i]\<close> nor \<open>Close[i-1]\<close> is missing.
  (As stated, for every Price Series, the claim fails: \<^verbatim>\<open>pct_change\<close> fills a missing price
  before it divides.)
\<close>

theorem simple_returns_padded:
  assumes "price_series data"
  shows "(df_index data = [] \<longrightarrow> compute_returns libm_log data False = Inl IndexError) \<and>
         (df_index data \<noteq> [] \<longrightarrow>
            (\<exists>r. compute_returns libm_log data False = Inr r \<and>
                 s_values r ! 0 = Fin 1 \<and>
                 (\<forall>i. 1 \<le> i \<and> i < length (df_index data) \<longrightarrow>
                    s_values r ! i =
                      fsub (fdiv (pad_from NaN (close_of data) ! i)
                              (pad_from NaN (close_of data) ! (i - 1))) (Fin 1) \<and>
                    (\<not> isnan (close_of data ! i) \<and> \<not> isnan (close_of data ! (i - 1)) \<longrightarrow>
                       s_values r ! i =
                         fsub (fdiv (close_of data ! i) (close_of data ! (i - 1))) (Fin 1)))))"
proof (intro conjI impI)
  assume "df_index data = []"
  with compute_returns_simple [OF assms, of libm_log]
  show "compute_returns libm_log data False = Inl IndexError"
    by simp
next
  assume ne: "df_index data \<noteq> []"
  let ?p = "pct_change \<lparr>s_index = df_index data, s_values = close_of data\<rparr>"
  let ?r = "\<lparr>s_index = df_index data, s_values = (s_values ?p)[0 := Fin 1]\<rparr>"
  have len: "length (s_values ?p) = length (df_index data)"
    using assms by (simp add: length_pct_change length_close_of)
  have r: "compute_returns libm_log data False = Inr ?r"
    using compute_returns_simple [OF assms, of libm_log] ne by simp
  have first: "s_values ?r ! 0 = Fin 1"
    using len ne by simp
  have rest: "s_values ?r ! i =
        fsub (fdiv (pad_from NaN (close_of data) ! i) (pad_from NaN (close_of data) ! (i - 1))) (Fin 1) \<and>
      (\<not> isnan (close_of data ! i) \<and> \<not> isnan (close_of data ! (i - 1)) \<longrightarrow>
         s_values ?r ! i = fsub (fdiv (close_of data ! i) (close_of data ! (i - 1))) (Fin 1))"
    if "1 \<le> i \<and> i < length (df_index data)" for i
  proof -
    from that assms have i: "i < length (close_of data)" "i - 1 < length (close_of data)"
      by (auto simp: length_close_of)
    from that have "s_values ?r ! i =
        fsub (fdiv (pad_from NaN (close_of data) ! i) (pad_from NaN (close_of data) ! (i - 1))) (Fin 1)"
      using simple_values_nth [OF assms, of i] by simp
    then show ?thesis
      using i by (simp add: pad_from_nth_present)
  qed
  from r first rest
  show "\<exists>r. compute_returns libm_log data False = Inr r \<and> s_values r ! 0 = Fin 1 \<and>
      (\<forall>i. 1 \<le> i \<and> i < length (df_index data) \<longrightarrow>
         s_values r ! i =
           fsub (fdiv (pad_from NaN (close_of data) ! i) (pad_from NaN (close_of data) ! (i - 1))) (Fin 1) \<and>
         (\<not> isnan (close_of data ! i) \<and> \<not> isnan (close_of data ! (i - 1)) \<longrightarrow>
            s_values r ! i = fsub (fdiv (close_of data ! i) (close_of data ! (i - 1))) (Fin 1)))"
    by (intro exI [of _ ?r]) blast
qed

theorem simple_returns_padded_witness:
  "price_series (prices_of [Fin 100, Fin 110, Fin 99]) \<and>
   (\<exists>r. compute_returns ln (prices_of [Fin 100, Fin 110, Fin 99]) False = Inr r \<and>
        s_values r ! 0 = Fin 1 \<and>
        s_values r ! 1 = fsub (fdiv (Fin 110) (Fin 100)) (Fin 1) \<and>
        s_values r ! 1 = Fin (225179981368525 / 2251799813685248) \<and>
        s_values r ! 2 = fsub (fdiv (Fin 99) (Fin 110)) (Fin 1) \<and>
        s_values r ! 2 = Fin (- (900719925474099 / 9007199254740992)))"
proof -
  let ?C = "[Fin 100, Fin 110, Fin 99]"
  have ps: "price_series (prices_of ?C)"
    by (rule price_series_prices_of)
  have v: "fsub (fdiv (Fin 110) (Fin 100)) (Fin 1) = Fin (225179981368525 / 2251799813685248)"
      "fsub (fdiv (Fin 99) (Fin 110)) (Fin 1) = Fin (- (900719925474099 / 9007199254740992))"
    by (simp_all add: fdiv_def fsub_def fadd_def rnd_example)
  from simple_returns_padded [OF ps, of ln]
  obtain r where r: "compute_returns ln (prices_of ?C) False = Inr r"
      "s_values r ! 0 = Fin 1"
      "\<forall>i. 1 \<le> i \<and> i < 3 \<longrightarrow>
          (\<not> isnan (?C ! i) \<and> \<not> isnan (?C ! (i - 1)) \<longrightarrow>
            s_values r ! i = fsub (fdiv (?C ! i) (?C ! (i - 1))) (Fin 1))"
    by (auto simp: close_of_prices_of index_prices_of)
  from r(3) [rule_format, of 1] r(3) [rule_format, of 2]
  have "s_values r ! 1 = fsub (fdiv (Fin 110) (Fin 100)) (Fin 1)"
       "s_values r ! 2 = fsub (fdiv (Fin 99) (Fin 110)) (Fin 1)"
    by simp_all
  with ps r(1,2) v show ?thesis by (intro conjI exI [of _ r]) simp_all
qed

theorem simple_returns_counterexample:
  "price_series (prices_of [Fin 100, NaN, Fin 110]) \<and>
   compute_returns ln (prices_of [Fin 100, NaN, Fin 110]) False =
     Inr \<lparr>s_index = [0, 1, 2],
          s_values = [Fin 1, Fin 0, Fin (225179981368525 / 2251799813685248)]\<rparr> \<and>
   fsub (fdiv (close_of (prices_of [Fin 100, NaN, Fin 110]) ! 1)
           (close_of (prices_of [Fin 100, NaN, Fin 110]) ! 0)) (Fin 1) = NaN \<and>
   (\<exists>r. compute_returns ln (prices_of [Fin 100, NaN, Fin 110]) False = Inr r \<and>
        s_values r ! 1 \<noteq>
          fsub (fdiv (close_of (prices_of [Fin 100, NaN, Fin 110]) ! 1)
                  (close_of (prices_of [Fin 100, NaN, Fin 110]) ! 0)) (Fin 1))"
proof -
  have r: "compute_returns ln (prices_of [Fin 100, NaN, Fin 110]) False =
     Inr \<lparr>s_index = [0, 1, 2],
          s_values = [Fin 1, Fin 0, Fin (225179981368525 / 2251799813685248)]\<rparr>"
    by (simp add: compute_returns_simps rnd_example)
  have c: "fsub (fdiv NaN (Fin 100)) (Fin 1) = NaN"
    by (simp add: fdiv_NaN fsub_NaN)
  show ?thesis
    by (simp add: price_series_prices_of close_of_prices_of r c)
qed

text \<open>
  Claim C7, as amended. On every Price Series of length \<open>n\<close> the Return Calculator in
  logarithmic mode returns a series of length \<open>n\<close> on the index of the input; in simple
  mode it does so when \<open>n \<ge> 1\<close> and raises \<^verbatim>\<open>IndexError\<close> when \<open>n = 0\<close>. The first entry
  (when there is one) is the sentinel 1 in simple mode; in logarithmic mode it is
  \<open>log (0 / Close[0])\<close>, which is minus infinity when \<open>Close[0]\<close> is present and not zero
  and NaN (a gap) otherwise.
\<close>

theorem returns_length_and_first_entry:
  assumes "price_series data"
  shows "(\<exists>r. compute_returns libm_log data True = Inr r \<and>
              length (s_values r) = length (df_index data) \<and> s_index r = df_index data \<and>
              (df_index data \<noteq> [] \<longrightarrow>
                 s_values r ! 0 =
                   (if isnan (close_of data ! 0) \<or> is_zero (close_of data ! 0) then NaN
                    else NInf))) \<and>
         (df_index data \<noteq> [] \<longrightarrow>
            (\<exists>r. compute_returns libm_log data False = Inr r \<and>
                 length (s_values r) = length (df_index data) \<and> s_index r = df_index data \<and>
                 s_values r ! 0 = Fin 1)) \<and>
         (df_index data = [] \<longrightarrow> compute_returns libm_log data False = Inl IndexError)"
proof (intro conjI impI)
  let ?r = "\<lparr>s_index = df_index data,
             s_values = map (np_log libm_log)
               (map2 fdiv (shift_values (Fin 0) (close_of data)) (close_of data))\<rparr>"
  have len: "length (s_values ?r) = length (df_index data)"
    using assms by (simp add: length_shift_values length_close_of)
  have first: "s_values ?r ! 0 =
      (if isnan (close_of data ! 0) \<or> is_zero (close_of data ! 0) then NaN else NInf)"
    if "df_index data \<noteq> []"
  proof -
    from that assms have "0 < length (close_of data)"
      by (simp add: length_close_of)
    from log_values_nth [OF this, of libm_log] show ?thesis
      by (simp add: log_zero_over)
  qed
  from compute_returns_log [OF assms, of libm_log] len first
  show "\<exists>r. compute_returns libm_log data True = Inr r \<and>
      length (s_values r) = length (df_index data) \<and> s_index r = df_index data \<and>
      (df_index data \<noteq> [] \<longrightarrow>
         s_values r ! 0 =
           (if isnan (close_of data ! 0) \<or> is_zero (close_of data ! 0) then NaN else NInf))"
    by (intro exI [of _ ?r]) simp
next
  assume ne: "df_index data \<noteq> []"
  let ?p = "pct_change \<lparr>s_index = df_index data, s_values = close_of data\<rparr>"
  have len: "length (s_values ?p) = length (df_index data)"
    using assms by (simp add: length_pct_change length_close_of)
  with compute_returns_simple [OF assms, of libm_log] ne
  show "\<exists>r. compute_returns libm_log data False = Inr r \<and>
      length (s_values r) = length (df_index data) \<and> s_index r = df_index data \<and>
      s_values r ! 0 = Fin 1"
    by simp
next
  assume "df_index data = []"
  with compute_returns_simple [OF assms, of libm_log]
  show "compute_returns libm_log data False = Inl IndexError"
    by simp
qed

theorem returns_length_and_first_entry_witness:
  "price_series (prices_of [Fin 100, Fin 110, Fin 99]) \<and>
   (\<exists>r. compute_returns ln (prices_of [Fin 100, Fin 110, Fin 99]) True = Inr r \<and>
        length (s_values r) = 3 \<and> s_index r = [0, 1, 2] \<and> s_values r ! 0 = NInf) \<and>
   (\<exists>r. compute_returns ln (prices_of [Fin 100, Fin 110, Fin 99]) False = Inr r \<and>
        length (s_values r) = 3 \<and> s_index r = [0, 1, 2] \<and> s_values r ! 0 = Fin 1) \<and>
   price_series (prices_of []) \<and>
   (\<exists>r. compute_returns ln (prices_of []) True = Inr r \<and> length (s_values r) = 0)"
  using returns_length_and_first_entry [of "prices_of [Fin 100, Fin 110, Fin 99]" ln]
    returns_length_and_first_entry [of "prices_of []" ln]
  by (auto simp: price_series_prices_of close_of_prices_of index_prices_of
      numeral_2_eq_2 numeral_3_eq_3)

theorem returns_length_counterexample:
  "price_series (prices_of []) \<and> length (df_index (prices_of [])) = 0 \<and>
   compute_returns ln (prices_of []) False = Inl IndexError \<and>
   price_series (prices_of [Fin 0]) \<and>
   compute_returns ln (prices_of [Fin 0]) True = Inr \<lparr>s_index = [0], s_values = [NaN]\<rparr>"
  by (simp add: price_series_prices_of) (simp add: compute_returns_simps)

text \<open>
  Claim C6, as amended. On a Price Series with a zero Close at a position \<open>i > 0\<close> the
  Return Calculator does not raise in either mode. In simple mode \<open>return[i]\<close> is \<open>-1\<close> when
  the previous Close (after forward-filling) is present and not zero, and NaN otherwise:
  in particular NaN when \<open>Close[i-1]\<close> is zero as well, since \<open>0 / 0\<close> is NaN. In
  logarithmic mode the entry at \<open>i\<close>, and the entry at \<open>i + 1\<close> when there is one, is
  infinite or NaN. The degenerate value is part of the returned series. A zero is plus
  zero or minus zero.
\<close>

theorem zero_close_propagates:
  assumes "price_series data" and "0 < i" and "i < length (df_index data)"
    and "is_zero (close_of data ! i)"
  shows "(\<exists>r. compute_returns libm_log data False = Inr r \<and>
              s_values r ! i =
                (if isnan (pad_from NaN (close_of data) ! (i - 1)) \<or>
                    is_zero (pad_from NaN (close_of data) ! (i - 1))
                 then NaN else Fin (- 1)) \<and>
              (is_zero (close_of data ! (i - 1)) \<longrightarrow> s_values r ! i = NaN) \<and>
              (\<not> is_zero (close_of data ! (i - 1)) \<and> \<not> isnan (close_of data ! (i - 1)) \<longrightarrow>
                 s_values r ! i = Fin (- 1))) \<and>
         (\<exists>r. compute_returns libm_log data True = Inr r \<and>
              \<not> isfinite (s_values r ! i) \<and>
              (Suc i < length (df_index data) \<longrightarrow> \<not> isfinite (s_values r ! Suc i)))"
proof (intro conjI)
  let ?C = "close_of data"
  let ?p = "pct_change \<lparr>s_index = df_index data, s_values = ?C\<rparr>"
  let ?r = "\<lparr>s_index = df_index data, s_values = (s_values ?p)[0 := Fin 1]\<rparr>"
  from assms have i: "i < length ?C" "i - 1 < length ?C" "1 \<le> i"
    by (auto simp: length_close_of)
  from assms have ne: "df_index data \<noteq> []" by auto
  have r: "compute_returns libm_log data False = Inr ?r"
    using compute_returns_simple [OF assms(1), of libm_log] ne by simp
  from assms(4) have nn: "\<not> isnan (?C ! i)"
    by (cases "?C ! i") simp_all
  have pi: "pad_from NaN ?C ! i = ?C ! i"
    using i(1) nn by (simp add: pad_from_nth_present)
  have v: "s_values ?r ! i =
      (if isnan (pad_from NaN ?C ! (i - 1)) \<or> is_zero (pad_from NaN ?C ! (i - 1))
       then NaN else Fin (- 1))"
    using simple_values_nth [OF assms(1) i(3) assms(3)] pi assms(4)
    by (simp add: zero_over_minus_one)
  have prev: "pad_from NaN ?C ! (i - 1) = ?C ! (i - 1)" if "\<not> isnan (?C ! (i - 1))"
    using that i(2) by (simp add: pad_from_nth_present)
  have z: "s_values ?r ! i = NaN" if "is_zero (?C ! (i - 1))"
  proof -
    from that have "\<not> isnan (?C ! (i - 1))" by (cases "?C ! (i - 1)") simp_all
    with prev that v show ?thesis by simp
  qed
  have m: "s_values ?r ! i = Fin (- 1)"
    if "\<not> is_zero (?C ! (i - 1)) \<and> \<not> isnan (?C ! (i - 1))"
    using that v prev by simp
  from r v z m
  show "\<exists>r. compute_returns libm_log data False = Inr r \<and>
      s_values r ! i =
        (if isnan (pad_from NaN ?C ! (i - 1)) \<or> is_zero (pad_from NaN ?C ! (i - 1))
         then NaN else Fin (- 1)) \<and>
      (is_zero (?C ! (i - 1)) \<longrightarrow> s_values r ! i = NaN) \<and>
      (\<not> is_zero (?C ! (i - 1)) \<and> \<not> isnan (?C ! (i - 1)) \<longrightarrow> s_values r ! i = Fin (- 1))"
    by (intro exI [of _ ?r]) blast
next
  let ?C = "close_of data"
  let ?r = "\<lparr>s_index = df_index data,
             s_values = map (np_log libm_log) (map2 fdiv (shift_values (Fin 0) ?C) ?C)\<rparr>"
  from assms have i: "i < length ?C" "i \<noteq> 0"
    by (simp_all add: length_close_of)
  have here: "\<not> isfinite (s_values ?r ! i)"
    using log_values_nth [OF i(1), of libm_log] i(2) assms(4)
    by (simp add: log_over_zero_not_finite)
  have after: "\<not> isfinite (s_values ?r ! Suc i)" if "Suc i < length (df_index data)"
  proof -
    from that assms(1) have "Suc i < length ?C" by (simp add: length_close_of)
    from log_values_nth [OF this, of libm_log] assms(4) show ?thesis
      by (simp add: log_zero_over)
  qed
  from compute_returns_log [OF assms(1), of libm_log] here after
  show "\<exists>r. compute_returns libm_log data True = Inr r \<and> \<not> isfinite (s_values r ! i) \<and>
      (Suc i < length (df_index data) \<longrightarrow> \<not> isfinite (s_values r ! Suc i))"
    by (intro exI [of _ ?r]) blast
qed

theorem zero_close_propagates_witness:
  "price_series (prices_of [Fin 100, Fin 0, Fin 50]) \<and>
   (\<exists>r. compute_returns ln (prices_of [Fin 100, Fin 0, Fin 50]) False = Inr r \<and>
        s_values r ! 1 = Fin (- 1)) \<and>
   (\<exists>r. compute_returns ln (prices_of [Fin 100, Fin 0, Fin 50]) True = Inr r \<and>
        \<not> isfinite (s_values r ! 1) \<and> \<not> isfinite (s_values r ! 2))"
  using zero_close_propagates [of "prices_of [Fin 100, Fin 0, Fin 50]" 1 ln]
  by (auto simp: price_series_prices_of close_of_prices_of index_prices_of
      numeral_2_eq_2 numeral_3_eq_3)

theorem zero_close_counterexample:
  "price_series (prices_of [Fin 10, Fin 0, Fin 0]) \<and>
   close_of (prices_of [Fin 10, Fin 0, Fin 0]) ! 2 = Fin 0 \<and>
   compute_returns ln (prices_of [Fin 10, Fin 0, Fin 0]) False =
     Inr \<lparr>s_index = [0, 1, 2], s_values = [Fin 1, Fin (- 1), NaN]\<rparr> \<and>
   (\<exists>r. compute_returns ln (prices_of [Fin 10, Fin 0, Fin 0]) False = Inr r \<and>
        s_values r ! 2 \<noteq> Fin (- 1))"
  by (simp add: price_series_prices_of close_of_prices_of) (simp add: compute_returns_simps)

lemma series_cumprod_not_finite:
  assumes "s_values s \<noteq> []" and "s_values s ! 0 = NInf"
  shows "list_all (\<lambda>y. \<not> isfinite y) (s_values (series_cumprod s))"
proof -
  let ?m = "map isnan (s_values s)"
  let ?g = "putmask (s_values s) ?m (Fin 1)"
  from assms obtain xs where xs: "s_values s = NInf # xs"
    by (cases "s_values s") auto
  then have "?g = NInf # putmask xs (map isnan xs) (Fin 1)"
    by (simp add: putmask_def)
  then have "np_cumprod ?g = NInf # np_cumprod_from NInf (putmask xs (map isnan xs) (Fin 1))"
    by simp
  then have all: "list_all (\<lambda>y. \<not> isfinite y) (np_cumprod ?g)"
    by (simp add: np_cumprod_from_not_finite)
  have "list_all (\<lambda>y. \<not> isfinite y) (putmask ys m NaN)"
    if "list_all (\<lambda>y. \<not> isfinite y) ys" for ys m
    using that by (auto simp: putmask_def list_all_iff dest: set_zip_leftD split: if_splits)
  from this [OF all] show ?thesis
    by (simp add: series_cumprod_def Let_def)
qed

text \<open>
  Claim C10. In logarithmic mode, on every Price Series whose first Close is positive,
  the return at index 0 is \<open>log (0 / Close[0])\<close>: the fill value 0 of the shift goes into
  the logarithm, so the first entry is minus infinity, and no entry of the cumulative
  product derived from it is finite.
\<close>

theorem log_first_entry_minus_infinity:
  assumes "price_series data" and "df_index data \<noteq> []"
    and "(\<exists>c. close_of data ! 0 = Fin c \<and> 0 < c) \<or> close_of data ! 0 = PInf"
  shows "\<exists>r c. compute_returns libm_log data True = Inr r \<and>
           s_values r ! 0 = np_log libm_log (fdiv (Fin 0) (close_of data ! 0)) \<and>
           s_values r ! 0 = NInf \<and>
           cumulative_return_series libm_log data True = Inr c \<and>
           length (s_values c) = length (df_index data) \<and>
           list_all (\<lambda>y. \<not> isfinite y) (s_values c)"
proof -
  let ?C = "close_of data"
  let ?r = "\<lparr>s_index = df_index data,
             s_values = map (np_log libm_log) (map2 fdiv (shift_values (Fin 0) ?C) ?C)\<rparr>"
  let ?c = "series_cumprod (series_add_scalar ?r (Fin 1))"
  from assms have pos: "0 < length ?C" by (simp add: length_close_of)
  have r: "compute_returns libm_log data True = Inr ?r"
    by (rule compute_returns_log [OF assms(1)])
  have first: "s_values ?r ! 0 = np_log libm_log (fdiv (Fin 0) (?C ! 0))"
    using log_values_nth [OF pos, of libm_log] by simp
  have ninf: "np_log libm_log (fdiv (Fin 0) (?C ! 0)) = NInf"
    using assms(3) by (auto simp: log_zero_over)
  have lenr: "length (s_values ?r) = length (df_index data)"
    using assms(1) by (simp add: length_shift_values length_close_of)
  have c: "cumulative_return_series libm_log data True = Inr ?c"
    using r by (simp add: cumulative_return_series_def)
  have lenc: "length (s_values ?c) = length (df_index data)"
    using lenr by (simp add: length_series_cumprod series_add_scalar_def)
  have lenp: "length (s_values (series_add_scalar ?r (Fin 1))) = length ?C"
    by (simp add: series_add_scalar_def length_shift_values)
  with pos have ne: "s_values (series_add_scalar ?r (Fin 1)) \<noteq> []"
    by auto
  from pos have "0 < length (s_values ?r)"
    by (simp add: length_shift_values)
  then have "s_values (series_add_scalar ?r (Fin 1)) ! 0 = fadd (s_values ?r ! 0) (Fin 1)"
    unfolding series_add_scalar_def by (simp only: series.simps nth_map)
  with first ninf have "s_values (series_add_scalar ?r (Fin 1)) ! 0 = NInf"
    by (simp add: fadd_NInf_one)
  with ne have nf: "list_all (\<lambda>y. \<not> isfinite y) (s_values ?c)"
    by (rule series_cumprod_not_finite)
  from r first ninf c lenc nf show ?thesis
    by (intro exI [of _ ?r] exI [of _ ?c]) simp
qed

theorem log_first_entry_minus_infinity_witness:
  "price_series (prices_of [Fin 100, Fin 110, Fin 99]) \<and>
   (\<exists>r c. compute_returns ln (prices_of [Fin 100, Fin 110, Fin 99]) True = Inr r \<and>
          s_values r ! 0 = NInf \<and>
          cumulative_return_series ln (prices_of [Fin 100, Fin 110, Fin 99]) True = Inr c \<and>
          length (s_values c) = 3 \<and> list_all (\<lambda>y. \<not> isfinite y) (s_values c))"
  using log_first_entry_minus_infinity [of "prices_of [Fin 100, Fin 110, Fin 99]" ln]
  by (auto simp: price_series_prices_of close_of_prices_of index_prices_of numeral_3_eq_3)

text \<open>
  Claim C3, as amended. Where the Return Calculator returns a series \<open>return\<close>, the
  Cumulative Return Series \<open>cumret\<close> computed inside \<^verbatim>\<open>plot_cummulative_returns\<close> has the same
  length and skips the NaN entries of \<open>return\<close>: with the running product \<open>P\<close> in which
  entry \<open>i\<close> contributes the factor \<open>1 + return[i]\<close>, or the factor 1 when \<open>return[i]\<close> is
  NaN, \<open>cumret[i]\<close> is NaN where \<open>return[i]\<close> is NaN and \<open>P[i]\<close> elsewhere. When no entry of
  \<open>return\<close> is NaN, \<open>cumret[0] = 1 + return[0]\<close> and
  \<open>cumret[i] = cumret[i-1] * (1 + return[i])\<close> for all \<open>i \<ge> 1\<close>, in the arithmetic of doubles.
  For \<open>Close = [100, 110, 99]\<close> in simple mode the returns are the doubles
  \<open>[1, 0.10000000000000009, -0.09999999999999998]\<close> and the cumulative series is the
  doubles \<open>[2, 2.2, 1.9800000000000002]\<close>, which are \<open>[1, 0.1, -0.1]\<close> and \<open>[2, 2.2, 1.98]\<close>
  to within \<open>1 / 10 ^ 15\<close>.
\<close>

theorem cumulative_returns_compound:
  assumes "price_series data" and "compute_returns libm_log data lg = Inr r"
  shows "(\<exists>c P. cumulative_return_series libm_log data lg = Inr c \<and>
              length (s_values c) = length (s_values r) \<and>
              length P = length (s_values r) \<and>
              (s_values r \<noteq> [] \<longrightarrow>
                 P ! 0 = (if isnan (s_values r ! 0) then Fin 1
                          else fadd (s_values r ! 0) (Fin 1))) \<and>
              (\<forall>i. 1 \<le> i \<and> i < length (s_values r) \<longrightarrow>
                 P ! i = fmul (P ! (i - 1))
                           (if isnan (s_values r ! i) then Fin 1
                            else fadd (s_values r ! i) (Fin 1))) \<and>
              (\<forall>i. i < length (s_values r) \<longrightarrow>
                 s_values c ! i = (if isnan (s_values r ! i) then NaN else P ! i)) \<and>
              (list_all (\<lambda>x. \<not> isnan x) (s_values r) \<longrightarrow>
                 (s_values r \<noteq> [] \<longrightarrow> s_values c ! 0 = fadd (s_values r ! 0) (Fin 1)) \<and>
                 (\<forall>i. 1 \<le> i \<and> i < length (s_values r) \<longrightarrow>
                    s_values c ! i =
                      fmul (s_values c ! (i - 1)) (fadd (s_values r ! i) (Fin 1))))) \<and>
         compute_returns libm_log (prices_of [Fin 100, Fin 110, Fin 99]) False =
           Inr \<lparr>s_index = [0, 1, 2],
                s_values = [Fin 1, Fin (225179981368525 / 2251799813685248),
                            Fin (- (900719925474099 / 9007199254740992))]\<rparr> \<and>
         cumulative_return_series libm_log (prices_of [Fin 100, Fin 110, Fin 99]) False =
           Inr \<lparr>s_index = [0, 1, 2],
                s_values = [Fin 2, Fin (2476979795053773 / 1125899906842624),
                            Fin (8917127262193583 / 4503599627370496)]\<rparr> \<and>
         \<bar>225179981368525 / 2251799813685248 - 0.1\<bar> < (1 / 10 ^ 15 :: real) \<and>
         \<bar>- (900719925474099 / 9007199254740992) - (- 0.1)\<bar> < (1 / 10 ^ 15 :: real) \<and>
         \<bar>2476979795053773 / 1125899906842624 - 2.2\<bar> < (1 / 10 ^ 15 :: real) \<and>
         \<bar>8917127262193583 / 4503599627370496 - 1.98\<bar> < (1 / 10 ^ 15 :: real)"
proof (intro conjI)
  let ?f = "series_add_scalar r (Fin 1)"
  let ?c = "series_cumprod ?f"
  let ?g = "putmask (s_values ?f) (map isnan (s_values ?f)) (Fin 1)"
  let ?P = "np_cumprod ?g"
  let ?n = "length (s_values r)"
  have fv: "s_values ?f = map (\<lambda>x. fadd x (Fin 1)) (s_values r)"
    by (simp add: series_add_scalar_def)
  have c: "cumulative_return_series libm_log data lg = Inr ?c"
    using assms(2) by (simp add: cumulative_return_series_def)
  have len: "length (s_values ?c) = ?n"
    by (simp add: length_series_cumprod fv)
  have leng: "length ?g = ?n"
    by (simp add: length_putmask fv)
  have lenP: "length ?P = ?n"
    by (simp add: length_np_cumprod leng)
  have g: "?g ! i = (if isnan (s_values r ! i) then Fin 1 else fadd (s_values r ! i) (Fin 1))"
    if "i < ?n" for i
    using that by (simp add: putmask_nth fv isnan_fadd_one)
  have P0: "?P ! 0 = (if isnan (s_values r ! 0) then Fin 1 else fadd (s_values r ! 0) (Fin 1))"
    if "s_values r \<noteq> []"
  proof -
    from that leng have "?g \<noteq> []" by auto
    from np_cumprod_first [OF this] g [of 0] that show ?thesis by simp
  qed
  have Pi: "?P ! i = fmul (?P ! (i - 1))
      (if isnan (s_values r ! i) then Fin 1 else fadd (s_values r ! i) (Fin 1))"
    if "1 \<le> i \<and> i < ?n" for i
  proof -
    from that leng have "1 \<le> i" "i < length ?g" by simp_all
    from np_cumprod_step [OF this] g [of i] that show ?thesis by simp
  qed
  have cv: "s_values ?c ! i = (if isnan (s_values r ! i) then NaN else ?P ! i)"
    if "i < ?n" for i
    using that lenP
    by (simp add: series_cumprod_def Let_def putmask_nth fv isnan_fadd_one)
  have rec: "(s_values r \<noteq> [] \<longrightarrow> s_values ?c ! 0 = fadd (s_values r ! 0) (Fin 1)) \<and>
      (\<forall>i. 1 \<le> i \<and> i < ?n \<longrightarrow>
         s_values ?c ! i = fmul (s_values ?c ! (i - 1)) (fadd (s_values r ! i) (Fin 1)))"
    if nn: "list_all (\<lambda>x. \<not> isnan x) (s_values r)"
  proof -
    from nn have all: "\<not> isnan (s_values r ! i)" if "i < ?n" for i
      using that by (simp add: list_all_length)
    have a: "s_values ?c ! 0 = fadd (s_values r ! 0) (Fin 1)" if "s_values r \<noteq> []"
      using that cv [of 0] P0 all [of 0] by simp
    have b: "s_values ?c ! i = fmul (s_values ?c ! (i - 1)) (fadd (s_values r ! i) (Fin 1))"
      if "1 \<le> i \<and> i < ?n" for i
    proof -
      from that have "i - 1 < ?n" by auto
      with that cv [of i] cv [of "i - 1"] Pi [of i] all [of i] all [of "i - 1"]
      show ?thesis by simp
    qed
    from a b show ?thesis by blast
  qed
  from c len lenP P0 Pi cv rec
  show "\<exists>c P. cumulative_return_series libm_log data lg = Inr c \<and>
      length (s_values c) = ?n \<and> length P = ?n \<and>
      (s_values r \<noteq> [] \<longrightarrow>
         P ! 0 = (if isnan (s_values r ! 0) then Fin 1 else fadd (s_values r ! 0) (Fin 1))) \<and>
      (\<forall>i. 1 \<le> i \<and> i < ?n \<longrightarrow>
         P ! i = fmul (P ! (i - 1))
                   (if isnan (s_values r ! i) then Fin 1 else fadd (s_values r ! i) (Fin 1))) \<and>
      (\<forall>i. i < ?n \<longrightarrow> s_values c ! i = (if isnan (s_values r ! i) then NaN else P ! i)) \<and>
      (list_all (\<lambda>x. \<not> isnan x) (s_values r) \<longrightarrow>
         (s_values r \<noteq> [] \<longrightarrow> s_values c ! 0 = fadd (s_values r ! 0) (Fin 1)) \<and>
         (\<forall>i. 1 \<le> i \<and> i < ?n \<longrightarrow>
            s_values c ! i = fmul (s_values c ! (i - 1)) (fadd (s_values r ! i) (Fin 1))))"
    by (intro exI [of _ ?c] exI [of _ ?P]) blast
next
  show "compute_returns libm_log (prices_of [Fin 100, Fin 110, Fin 99]) False =
      Inr \<lparr>s_index = [0, 1, 2],
           s_values = [Fin 1, Fin (225179981368525 / 2251799813685248),
                       Fin (- (900719925474099 / 9007199254740992))]\<rparr>"
    by (rule example_returns)
  show "cumulative_return_series libm_log (prices_of [Fin 100, Fin 110, Fin 99]) False =
      Inr \<lparr>s_index = [0, 1, 2],
           s_values = [Fin 2, Fin (2476979795053773 / 1125899906842624),
                       Fin (8917127262193583 / 4503599627370496)]\<rparr>"
    by (rule example_cumulative)
  show "\<bar>225179981368525 / 2251799813685248 - 0.1\<bar> < (1 / 10 ^ 15 :: real)"
    by simp
  show "\<bar>- (900719925474099 / 9007199254740992) - (- 0.1)\<bar> < (1 / 10 ^ 15 :: real)"
    by simp
  show "\<bar>2476979795053773 / 1125899906842624 - 2.2\<bar> < (1 / 10 ^ 15 :: real)"
    by simp
  show "\<bar>8917127262193583 / 4503599627370496 - 1.98\<bar> < (1 / 10 ^ 15 :: real)"
    by simp
qed

theorem cumulative_returns_compound_witness:
  "price_series (prices_of [NaN, Fin 100, Fin 110]) \<and>
   compute_returns ln (prices_of [NaN, Fin 100, Fin 110]) False =
     Inr \<lparr>s_index = [0, 1, 2],
          s_values = [Fin 1, NaN, Fin (225179981368525 / 2251799813685248)]\<rparr> \<and>
   (\<exists>c P. cumulative_return_series ln (prices_of [NaN, Fin 100, Fin 110]) False = Inr c \<and>
          P ! 0 = Fin 2 \<and> P ! 1 = fmul (P ! 0) (Fin 1) \<and>
          P ! 2 = fmul (P ! 1) (fadd (Fin (225179981368525 / 2251799813685248)) (Fin 1)) \<and>
          s_values c ! 0 = P ! 0 \<and> s_values c ! 1 = NaN \<and> s_values c ! 2 = P ! 2)"
proof -
  let ?d = "prices_of [NaN, Fin 100, Fin 110]"
  let ?r = "\<lparr>s_index = [0, 1, 2],
             s_values = [Fin 1, NaN, Fin (225179981368525 / 2251799813685248)]\<rparr>"
  have ps: "price_series ?d" by (rule price_series_prices_of)
  have r: "compute_returns ln ?d False = Inr ?r"
    by (simp add: compute_returns_simps rnd_example)
  from cumulative_returns_compound [OF ps r]
  obtain c P where c: "cumulative_return_series ln ?d False = Inr c"
    and P0: "P ! 0 = (if isnan (s_values ?r ! 0) then Fin 1 else fadd (s_values ?r ! 0) (Fin 1))"
    and Pi: "\<forall>i. 1 \<le> i \<and> i < length (s_values ?r) \<longrightarrow>
       P ! i = fmul (P ! (i - 1))
                 (if isnan (s_values ?r ! i) then Fin 1 else fadd (s_values ?r ! i) (Fin 1))"
    and cv: "\<forall>i. i < length (s_values ?r) \<longrightarrow>
       s_values c ! i = (if isnan (s_values ?r ! i) then NaN else P ! i)"
    by auto
  from P0 have p0: "P ! 0 = Fin 2"
    by (simp add: fadd_def rnd_two)
  from Pi [rule_format, of 1] Pi [rule_format, of 2] cv [rule_format, of 0]
    cv [rule_format, of 1] cv [rule_format, of 2] p0 c ps r
  show ?thesis
    by (intro conjI exI [of _ c] exI [of _ P]) simp_all
qed

theorem cumulative_returns_counterexample:
  "price_series (prices_of [NaN, Fin 100, Fin 110]) \<and>
   compute_returns ln (prices_of [NaN, Fin 100, Fin 110]) False =
     Inr \<lparr>s_index = [0, 1, 2],
          s_values = [Fin 1, NaN, Fin (225179981368525 / 2251799813685248)]\<rparr> \<and>
   cumulative_return_series ln (prices_of [NaN, Fin 100, Fin 110]) False =
     Inr \<lparr>s_index = [0, 1, 2],
          s_values = [Fin 2, NaN, Fin (2476979795053773 / 1125899906842624)]\<rparr> \<and>
   (\<exists>r c. compute_returns ln (prices_of [NaN, Fin 100, Fin 110]) False = Inr r \<and>
          cumulative_return_series ln (prices_of [NaN, Fin 100, Fin 110]) False = Inr c \<and>
          s_values c ! 2 \<noteq> fmul (s_values c ! 1) (fadd (s_values r ! 2) (Fin 1)))"
proof -
  have r: "compute_returns ln (prices_of [NaN, Fin 100, Fin 110]) False =
      Inr \<lparr>s_index = [0, 1, 2],
           s_values = [Fin 1, NaN, Fin (225179981368525 / 2251799813685248)]\<rparr>"
    by (simp add: compute_returns_simps rnd_example)
  have c: "cumulative_return_series ln (prices_of [NaN, Fin 100, Fin 110]) False =
      Inr \<lparr>s_index = [0, 1, 2],
           s_values = [Fin 2, NaN, Fin (2476979795053773 / 1125899906842624)]\<rparr>"
    by (simp add: cumulative_return_series_def r series_add_scalar_def series_cumprod_def
        putmask_def Let_def fadd_def fmul_def rnd_two rnd_example)
  show ?thesis
    by (simp add: price_series_prices_of r c fmul_def)
qed

lemma cumulative_return_series_index:
  "cumulative_return_series libm_log data lg = Inr c \<Longrightarrow>
   compute_returns libm_log data lg = Inr r \<Longrightarrow> s_index c = s_index r"
  by (auto simp: cumulative_return_series_def series_cumprod_def series_add_scalar_def Let_def)

lemma compute_returns_succeeds:
  assumes "price_series data" and "lg \<or> df_index data \<noteq> []"
  shows "\<exists>r. compute_returns libm_log data lg = Inr r \<and> s_index r = df_index data"
proof (cases lg)
  case True
  with compute_returns_log [OF assms(1), of libm_log] show ?thesis by simp
next
  case False
  with compute_returns_simple [OF assms(1), of libm_log] assms(2) show ?thesis by simp
qed

text \<open>
  Claim C8, as amended. On an empty Price Series in simple mode
  \<^verbatim>\<open>plot_cummulative_returns\<close> raises \<^verbatim>\<open>IndexError\<close>, whatever its show flag. On every other
  Price Series it hands the cumulative series, on the index of the input, to the charting
  library; an exception of the library propagates; and when the library returns its plot
  object, the function with \<open>show\<close> false returns that object, with the title and the
  labels set, and displays nothing, and with \<open>show\<close> true it displays the plot and
  returns nothing.
\<close>

theorem plot_show_flag:
  assumes "price_series data"
  shows "(\<not> lg \<and> df_index data = [] \<longrightarrow>
            plot_cummulative_returns libm_log lineplot data tick lg show = Inl IndexError) \<and>
         (lg \<or> df_index data \<noteq> [] \<longrightarrow>
            (\<exists>c. cumulative_return_series libm_log data lg = Inr c \<and>
                 s_index c = df_index data \<and>
                 (\<forall>e. lineplot (df_index data) c = Inl e \<longrightarrow>
                    plot_cummulative_returns libm_log lineplot data tick lg show = Inl e) \<and>
                 (\<forall>ax. lineplot (df_index data) c = Inr ax \<longrightarrow>
                    plot_cummulative_returns libm_log lineplot data tick lg False =
                      Inr ([], Some (ax\<lparr>ax_title := tick @ '' - Daily Cummulative Returns'',
                                         ax_weight := ''bold'', ax_xlabel := [],
                                         ax_ylabel := ''Cummulative returns''\<rparr>)) \<and>
                    plot_cummulative_returns libm_log lineplot data tick lg True =
                      Inr ([Show], None))))"
proof (intro conjI impI)
  assume "\<not> lg \<and> df_index data = []"
  with compute_returns_simple [OF assms, of libm_log]
  show "plot_cummulative_returns libm_log lineplot data tick lg show = Inl IndexError"
    by (simp add: plot_cummulative_returns_def cumulative_return_series_def)
next
  assume ok: "lg \<or> df_index data \<noteq> []"
  from compute_returns_succeeds [OF assms ok, of libm_log]
  obtain r where r: "compute_returns libm_log data lg = Inr r" "s_index r = df_index data"
    by blast
  let ?c = "series_cumprod (series_add_scalar r (Fin 1))"
  have c: "cumulative_return_series libm_log data lg = Inr ?c"
    using r(1) by (simp add: cumulative_return_series_def)
  have idx: "s_index ?c = df_index data"
    using cumulative_return_series_index [OF c r(1)] r(2) by simp
  have err: "plot_cummulative_returns libm_log lineplot data tick lg show = Inl e"
    if "lineplot (df_index data) ?c = Inl e" for e
    using that idx by (simp add: plot_cummulative_returns_def c)
  have ret: "plot_cummulative_returns libm_log lineplot data tick lg False =
        Inr ([], Some (ax\<lparr>ax_title := tick @ '' - Daily Cummulative Returns'',
                           ax_weight := ''bold'', ax_xlabel := [],
                           ax_ylabel := ''Cummulative returns''\<rparr>)) \<and>
      plot_cummulative_returns libm_log lineplot data tick lg True = Inr ([Show], None)"
    if "lineplot (df_index data) ?c = Inr ax" for ax
    using that idx by (simp add: plot_cummulative_returns_def c Let_def)
  from c idx err ret
  show "\<exists>c. cumulative_return_series libm_log data lg = Inr c \<and>
      s_index c = df_index data \<and>
      (\<forall>e. lineplot (df_index data) c = Inl e \<longrightarrow>
         plot_cummulative_returns libm_log lineplot data tick lg show = Inl e) \<and>
      (\<forall>ax. lineplot (df_index data) c = Inr ax \<longrightarrow>
         plot_cummulative_returns libm_log lineplot data tick lg False =
           Inr ([], Some (ax\<lparr>ax_title := tick @ '' - Daily Cummulative Returns'',
                              ax_weight := ''bold'', ax_xlabel := [],
                              ax_ylabel := ''Cummulative returns''\<rparr>)) \<and>
         plot_cummulative_returns libm_log lineplot data tick lg True = Inr ([Show], None))"
    by (intro exI [of _ ?c]) blast
qed

theorem plot_show_flag_witness:
  "price_series (prices_of [Fin 100, Fin 110, Fin 99]) \<and>
   plot_cummulative_returns ln example_lineplot (prices_of [Fin 100, Fin 110, Fin 99])
       ''AAPL'' False False =
     Inr ([], Some \<lparr>ax_drawn = [(0, Fin 2), (1, Fin (2476979795053773 / 1125899906842624)),
                                (2, Fin (8917127262193583 / 4503599627370496))],
                    ax_title = ''AAPL - Daily Cummulative Returns'', ax_weight = ''bold'',
                    ax_xlabel = [], ax_ylabel = ''Cummulative returns''\<rparr>) \<and>
   plot_cummulative_returns ln example_lineplot (prices_of [Fin 100, Fin 110, Fin 99])
       ''AAPL'' False True = Inr ([Show], None) \<and>
   price_series (prices_of [Fin 0]) \<and>
   plot_cummulative_returns ln example_lineplot (prices_of [Fin 0]) ''AAPL'' True False =
     Inl KeyError"
proof -
  let ?d = "prices_of [Fin 100, Fin 110, Fin 99]"
  let ?c = "\<lparr>s_index = [0, 1, 2],
             s_values = [Fin 2, Fin (2476979795053773 / 1125899906842624),
                         Fin (8917127262193583 / 4503599627370496)]\<rparr>"
  let ?ax = "\<lparr>ax_drawn = [(0::nat, Fin 2), (1, Fin (2476979795053773 / 1125899906842624)),
                          (2, Fin (8917127262193583 / 4503599627370496))],
              ax_title = [], ax_weight = ''normal'', ax_xlabel = [], ax_ylabel = []\<rparr>"
  have ps: "price_series ?d" "price_series (prices_of [Fin 0])"
    by (rule price_series_prices_of)+
  have ix: "df_index ?d = [0, 1, 2]" "df_index (prices_of [Fin 0]) = [0]"
    by (simp_all add: prices_of_def)
  have lp: "example_lineplot [0, 1, 2] ?c = Inr ?ax"
    by (simp add: example_lineplot_def)
  have c0: "cumulative_return_series ln (prices_of [Fin 0]) True =
      Inr \<lparr>s_index = [0], s_values = [NaN]\<rparr>"
    by (simp add: cumulative_return_series_def compute_returns_simps series_add_scalar_def
        series_cumprod_def)
  have lp0: "example_lineplot [0] \<lparr>s_index = [0], s_values = [NaN]\<rparr> = Inl KeyError"
    by (simp add: example_lineplot_def)
  from plot_show_flag [OF ps(1), of False ln example_lineplot "''AAPL''" False]
    plot_show_flag [OF ps(2), of True ln example_lineplot "''AAPL''" False]
  show ?thesis
    using ps lp lp0 c0 by (simp add: ix example_cumulative)
qed

theorem plot_show_flag_counterexample:
  "price_series (prices_of []) \<and>
   (\<forall>tick show. plot_cummulative_returns ln example_lineplot (prices_of []) tick False show =
      Inl IndexError)"
  by (simp add: price_series_prices_of)
     (simp add: plot_cummulative_returns_def cumulative_return_series_def compute_returns_simps)




lemma upt_six: "[0 ..< 6] = [0, 1, 2, 3, 4, 5 :: nat]"
  by code_simp

lemma example_provider_one:
  "example_provider [s] date_start date_end =
     Inr \<lparr>rf_index = [date_start], rf_index_name = Some ''Date'',
          rf_columns = MultiIndex
            [(Some ''Attributes'', [''Adj Close'', ''Close'', ''High'', ''Low'', ''Open'', ''Volume'']),
             (Some ''Symbols'', [s, s, s, s, s, s])],
          rf_data = [[Fin 0], [Fin 1], [Fin 2], [Fin 3], [Fin 4], [Fin 5]]\<rparr>"
  by (simp add: example_provider_def attributes_def upt_six)

lemma example_provider_two:
  "example_provider [s, t] date_start date_end =
     Inr \<lparr>rf_index = [date_start], rf_index_name = Some ''Date'',
          rf_columns = MultiIndex
            [(Some ''Attributes'',
              [''Adj Close'', ''Adj Close'', ''Close'', ''Close'', ''High'', ''High'',
               ''Low'', ''Low'', ''Open'', ''Open'', ''Volume'', ''Volume'']),
             (Some ''Symbols'', [s, t, s, t, s, t, s, t, s, t, s, t])],
          rf_data = map (\<lambda>j. [Fin (real j)]) [0 ..< 12]\<rparr>"
  by (simp add: example_provider_def attributes_def)



text \<open>
  Claim C5, as amended. \<^verbatim>\<open>download_stock\<close> names only the first symbol of its list in the
  log line and sends the whole list to the provider. For two non-empty symbol lists
  with the same first element and the same dates the log lines are the same, each
  request carries its own list, and each result is what the normalisation makes of the
  provider's answer to that request: the same answer gives the same result. (As stated
  the claim fails: the lists \<open>[AAPL]\<close> and \<open>[AAPL, MSFT]\<close> give different requests, and with
  a provider that answers with six columns per symbol the second call raises
  \<^verbatim>\<open>ValueError\<close> where the first returns a table.)
\<close>

theorem fetcher_symbol_list:
  assumes "s1 \<noteq> []" and "s2 \<noteq> []" and "hd s1 = hd s2"
  shows "fst (download_stock get_data_yahoo s1 date_start date_end) =
           [Log (''Download data from '' @ hd s1), Request s1 date_start date_end] \<and>
         fst (download_stock get_data_yahoo s2 date_start date_end) =
           [Log (''Download data from '' @ hd s1), Request s2 date_start date_end] \<and>
         snd (download_stock get_data_yahoo s1 date_start date_end) =
           (case get_data_yahoo s1 date_start date_end of
              Inl e \<Rightarrow> Inl e | Inr df \<Rightarrow> normalise df) \<and>
         snd (download_stock get_data_yahoo s2 date_start date_end) =
           (case get_data_yahoo s2 date_start date_end of
              Inl e \<Rightarrow> Inl e | Inr df \<Rightarrow> normalise df) \<and>
         (get_data_yahoo s1 date_start date_end = get_data_yahoo s2 date_start date_end \<longrightarrow>
            snd (download_stock get_data_yahoo s1 date_start date_end) =
            snd (download_stock get_data_yahoo s2 date_start date_end))"
  using assms
  by (cases s1; cases s2) (auto simp: download_stock_def Let_def split: sum.splits)

theorem fetcher_symbol_list_witness:
  "[''AAPL''] \<noteq> [] \<and> [''AAPL'', ''MSFT''] \<noteq> [] \<and> hd [''AAPL''] = hd [''AAPL'', ''MSFT''] \<and>
   fst (download_stock example_provider [''AAPL''] 3 4) =
     [Log ''Download data from AAPL'', Request [''AAPL''] 3 4] \<and>
   fst (download_stock example_provider [''AAPL'', ''MSFT''] 3 4) =
     [Log ''Download data from AAPL'', Request [''AAPL'', ''MSFT''] 3 4]"
  using fetcher_symbol_list [of "[''AAPL'']" "[''AAPL'', ''MSFT'']" example_provider 3 4]
  by simp

theorem fetcher_symbol_list_counterexample:
  "hd [''AAPL''] = hd [''AAPL'', ''MSFT''] \<and>
   fst (download_stock example_provider [''AAPL''] 3 4) \<noteq>
   fst (download_stock example_provider [''AAPL'', ''MSFT''] 3 4) \<and>
   snd (download_stock example_provider [''AAPL''] 3 4) =
     Inr \<lparr>df_index = [3], df_index_name = None,
          df_columns = [(''Open'', [Fin 4]), (''Low'', [Fin 3]), (''Close'', [Fin 1]),
                        (''High'', [Fin 2]), (''Volume'', [Fin 5])]\<rparr> \<and>
   snd (download_stock example_provider [''AAPL'', ''MSFT''] 3 4) = Inl ValueError"
  by (simp add: download_stock_def example_provider_one example_provider_two normalise_def
      set_columns_def set_columns_list_def getitem_list_def Let_def)

lemma h_new_eq: "h_new h s = (\<lparr>hs_index = s_index s, hs_buf = length h\<rparr>, h @ [s_values s])"
  by (simp add: h_new_def alloc_def)

lemma series_view_append:
  "hs_buf s < length h \<Longrightarrow> series_view (h @ xs) s = series_view h s"
  by (simp add: series_view_def nth_append)

lemma series_view_fresh:
  "series_view (h @ [v]) \<lparr>hs_index = ix, hs_buf = length h\<rparr> = \<lparr>s_index = ix, s_values = v\<rparr>"
  by (simp add: series_view_def)

lemma frame_view_append:
  "frame_in_store h f \<Longrightarrow> frame_view (h @ xs) f = frame_view h f"
  by (simp add: frame_in_store_def frame_view_def list_all_iff nth_append)

lemma map_of_map_values:
  "map_of (map (\<lambda>c. (fst c, g (snd c))) cs) key = map_option g (map_of cs key)"
  by (induction cs) simp_all

lemma getitem_frame_view:
  "getitem (frame_view h f) key =
     (case h_getitem f key of Inl e \<Rightarrow> Inl e | Inr s \<Rightarrow> Inr (series_view h s))"
  using map_of_map_values [of "\<lambda>a. h ! a" "hf_columns f" key]
  by (simp add: getitem_def h_getitem_def frame_view_def series_view_def split: option.splits)

lemma h_getitem_in_store:
  "frame_in_store h f \<Longrightarrow> h_getitem f key = Inr s \<Longrightarrow> hs_buf s < length h"
  by (auto simp: frame_in_store_def h_getitem_def list_all_iff split: option.splits
      dest!: map_of_SomeD)

text \<open>Logarithmic mode on the store: three new buffers, nothing written in place.\<close>

lemma h_compute_returns_log:
  assumes "frame_in_store h data" and "h_getitem data ''Close'' = Inr s"
  shows "\<exists>v1 v2 r. h_compute_returns h libm_log data True =
           (Inr \<lparr>hs_index = s_index r, hs_buf = length h + 2\<rparr>, h @ [v1, v2, s_values r]) \<and>
           compute_returns libm_log (frame_view h data) True = Inr r"
proof -
  from h_getitem_in_store [OF assms] have b: "hs_buf s < length h" .
  let ?s = "series_view h s"
  let ?lag = "series_shift ?s (Fin 0)"
  let ?q = "series_div ?lag ?s"
  let ?r = "np_log_series libm_log ?q"
  have v1: "series_view (h @ [s_values ?lag]) \<lparr>hs_index = s_index ?lag, hs_buf = length h\<rparr> = ?lag"
    by (simp add: series_view_def)
  have v1s: "series_view (h @ [s_values ?lag]) s = ?s"
    using b by (rule series_view_append)
  have v2: "series_view (h @ [s_values ?lag, s_values ?q])
              \<lparr>hs_index = s_index ?q, hs_buf = Suc (length h)\<rparr> = ?q"
    by (simp add: series_view_def nth_append)
  have "h_compute_returns h libm_log data True =
      (Inr \<lparr>hs_index = s_index ?r, hs_buf = length h + 2\<rparr>,
       h @ [s_values ?lag, s_values ?q, s_values ?r])"
    by (simp add: h_compute_returns_def assms(2) h_shift_def h_div_def h_np_log_def h_new_eq
        v1 v1s v2)
  moreover have "compute_returns libm_log (frame_view h data) True = Inr ?r"
    by (simp add: compute_returns_def getitem_frame_view assms(2) Let_def)
  ultimately show ?thesis by blast
qed

text \<open>
  Simple mode on the store: one new buffer, and the assignment of the sentinel writes
  into that buffer.
\<close>

lemma h_compute_returns_simple:
  assumes "frame_in_store h data" and "h_getitem data ''Close'' = Inr s"
  shows "(\<exists>r. h_compute_returns h libm_log data False =
             (Inr \<lparr>hs_index = s_index r, hs_buf = length h\<rparr>, h @ [s_values r]) \<and>
             compute_returns libm_log (frame_view h data) False = Inr r) \<or>
         (\<exists>v. h_compute_returns h libm_log data False = (Inl IndexError, h @ [v]) \<and>
              compute_returns libm_log (frame_view h data) False = Inl IndexError)"
proof -
  let ?p = "pct_change (series_view h s)"
  have pure: "compute_returns libm_log (frame_view h data) False = series_setitem ?p 0 (Fin 1)"
    by (simp add: compute_returns_def getitem_frame_view assms(2) Let_def)
  show ?thesis
  proof (cases "0 < length (s_values ?p)")
    case True
    let ?r = "?p\<lparr>s_values := (s_values ?p)[0 := Fin 1]\<rparr>"
    from True have "h_compute_returns h libm_log data False =
        (Inr \<lparr>hs_index = s_index ?r, hs_buf = length h\<rparr>, h @ [s_values ?r])"
      by (simp add: h_compute_returns_def assms(2) h_pct_change_def h_new_eq h_setitem_def)
    moreover from True have "series_setitem ?p 0 (Fin 1) = Inr ?r"
      by (simp add: series_setitem_def)
    ultimately show ?thesis using pure by auto
  next
    case False
    then have "h_compute_returns h libm_log data False = (Inl IndexError, h @ [s_values ?p])"
      by (simp add: h_compute_returns_def assms(2) h_pct_change_def h_new_eq h_setitem_def)
    moreover from False have "series_setitem ?p 0 (Fin 1) = Inl IndexError"
      by (simp add: series_setitem_def)
    ultimately show ?thesis using pure by auto
  qed
qed


lemma h_compute_returns_extends:
  assumes "frame_in_store h data"
  shows "\<exists>ext res. h_compute_returns h libm_log data lg = (res, h @ ext) \<and>
           map_sum id (series_view (h @ ext)) res = compute_returns libm_log (frame_view h data) lg \<and>
           (\<forall>r. res = Inr r \<longrightarrow> length h \<le> hs_buf r)"
proof (cases "h_getitem data ''Close''")
  case (Inl e)
  then have "h_compute_returns h libm_log data lg = (Inl e, h @ [])"
    by (simp add: h_compute_returns_def)
  moreover from Inl have "compute_returns libm_log (frame_view h data) lg = Inl e"
    by (simp add: compute_returns_def getitem_frame_view)
  ultimately show ?thesis by (intro exI [of _ "[]"] exI [of _ "Inl e"]) simp
next
  case (Inr s)
  show ?thesis
  proof (cases lg)
    case True
    from h_compute_returns_log [OF assms Inr, of libm_log] obtain v1 v2 r where
      "h_compute_returns h libm_log data True =
         (Inr \<lparr>hs_index = s_index r, hs_buf = length h + 2\<rparr>, h @ [v1, v2, s_values r])"
      "compute_returns libm_log (frame_view h data) True = Inr r"
      by blast
    with True show ?thesis
      by (intro exI [of _ "[v1, v2, s_values r]"]
          exI [of _ "Inr \<lparr>hs_index = s_index r, hs_buf = length h + 2\<rparr>"])
        (simp add: series_view_def nth_append)
  next
    case False
    from h_compute_returns_simple [OF assms Inr, of libm_log] show ?thesis
    proof (elim disjE exE conjE)
      fix r
      assume "h_compute_returns h libm_log data False =
          (Inr \<lparr>hs_index = s_index r, hs_buf = length h\<rparr>, h @ [s_values r])"
        and "compute_returns libm_log (frame_view h data) False = Inr r"
      with False show ?thesis
        by (intro exI [of _ "[s_values r]"]
            exI [of _ "Inr \<lparr>hs_index = s_index r, hs_buf = length h\<rparr>"])
          (simp add: series_view_def)
    next
      fix v
      assume "h_compute_returns h libm_log data False = (Inl IndexError, h @ [v])"
        and "compute_returns libm_log (frame_view h data) False = Inl IndexError"
      with False show ?thesis
        by (intro exI [of _ "[v]"] exI [of _ "Inl IndexError"]) simp
    qed
  qed
qed

lemma h_plot_extends:
  assumes "frame_in_store h data"
  shows "\<exists>ext. h_plot_cummulative_returns h libm_log lineplot data tick lg show =
           (plot_cummulative_returns libm_log lineplot (frame_view h data) tick lg show, h @ ext)"
proof -
  from h_compute_returns_extends [OF assms, of libm_log lg] obtain ext res where
    cr: "h_compute_returns h libm_log data lg = (res, h @ ext)"
    and pure: "map_sum id (series_view (h @ ext)) res = compute_returns libm_log (frame_view h data) lg"
    by blast
  show ?thesis
  proof (cases res)
    case (Inl e)
    with pure have "compute_returns libm_log (frame_view h data) lg = Inl e"
      by simp
    with cr Inl show ?thesis
      by (intro exI [of _ ext])
        (simp add: h_plot_cummulative_returns_def plot_cummulative_returns_def
          cumulative_return_series_def)
  next
    case (Inr hr)
    let ?h1 = "h @ ext"
    let ?r = "series_view ?h1 hr"
    let ?f = "series_add_scalar ?r (Fin 1)"
    let ?c = "series_cumprod ?f"
    from Inr pure have r: "compute_returns libm_log (frame_view h data) lg = Inr ?r"
      by simp
    have f: "series_view (?h1 @ [s_values ?f]) \<lparr>hs_index = s_index ?f, hs_buf = length ?h1\<rparr> = ?f"
      by (simp only: series_view_fresh) simp
    have c: "series_view (?h1 @ [s_values ?f] @ [s_values ?c])
               \<lparr>hs_index = s_index ?c, hs_buf = Suc (length ?h1)\<rparr> = ?c"
      by (simp add: series_view_def nth_append)
    have idx: "s_index ?c = hs_index hr"
      by (simp add: series_cumprod_def series_add_scalar_def series_view_def Let_def)
    have "h_plot_cummulative_returns h libm_log lineplot data tick lg show =
        (plot_cummulative_returns libm_log lineplot (frame_view h data) tick lg show,
         h @ (ext @ [s_values ?f, s_values ?c]))"
      using f c idx
      by (cases "lineplot (hs_index hr) ?c")
        (simp_all add: h_plot_cummulative_returns_def cr Inr h_add_scalar_def h_cumprod_def
          h_new_eq plot_cummulative_returns_def cumulative_return_series_def r Let_def)
    then show ?thesis by blast
  qed
qed

text \<open>
  The aliasing is real in this model: the same assignment made to
  the series that \<^verbatim>\<open>data['Close']\<close> returns would change the table.
\<close>

lemma setitem_on_view_mutates:
  "h_getitem (hframe_of [Fin 100, Fin 110]) ''Close'' = Inr \<lparr>hs_index = [0, 1], hs_buf = 2\<rparr> \<and>
   frame_view
     (snd (h_setitem (store_of [Fin 100, Fin 110]) \<lparr>hs_index = [0, 1], hs_buf = 2\<rparr> 0 (Fin 1)))
     (hframe_of [Fin 100, Fin 110]) \<noteq>
   frame_view (store_of [Fin 100, Fin 110]) (hframe_of [Fin 100, Fin 110])"
  by (simp add: h_getitem_def hframe_of_def store_of_def h_setitem_def frame_view_def)

lemma frame_view_store_of: "frame_view (store_of closes) (hframe_of closes) = prices_of closes"
  by (simp add: frame_view_def store_of_def hframe_of_def prices_of_def)

lemma frame_in_store_of: "frame_in_store (store_of closes) (hframe_of closes)"
  by (simp add: frame_in_store_def store_of_def hframe_of_def)

text \<open>
  Claim C9. Neither \<^verbatim>\<open>compute_returns\<close> nor \<^verbatim>\<open>plot_cummulative_returns\<close> mutates its
  input: for every store and every table whose columns are buffers of the store, after
  the call every buffer that existed before holds what it held, so the table is
  unchanged, whether the call returns or raises. The series returned by
  \<^verbatim>\<open>compute_returns\<close> lives in a buffer allocated by the call, so the assignment of
  the sentinel in simple mode writes there and not into the input. The values computed
  on the store are those of the value-level functions above.
\<close>

theorem input_not_mutated:
  assumes "frame_in_store h data"
  shows "take (length h) (snd (h_compute_returns h libm_log data lg)) = h \<and>
         frame_view (snd (h_compute_returns h libm_log data lg)) data = frame_view h data \<and>
         map_sum id (series_view (snd (h_compute_returns h libm_log data lg)))
           (fst (h_compute_returns h libm_log data lg)) = compute_returns libm_log (frame_view h data) lg \<and>
         (\<forall>r. fst (h_compute_returns h libm_log data lg) = Inr r \<longrightarrow> length h \<le> hs_buf r) \<and>
         take (length h) (snd (h_plot_cummulative_returns h libm_log lineplot data tick lg show)) = h \<and>
         frame_view (snd (h_plot_cummulative_returns h libm_log lineplot data tick lg show)) data =
           frame_view h data \<and>
         fst (h_plot_cummulative_returns h libm_log lineplot data tick lg show) =
           plot_cummulative_returns libm_log lineplot (frame_view h data) tick lg show"
proof -
  from h_compute_returns_extends [OF assms, of libm_log lg] obtain ext res where
    "h_compute_returns h libm_log data lg = (res, h @ ext)"
    "map_sum id (series_view (h @ ext)) res = compute_returns libm_log (frame_view h data) lg"
    "\<forall>r. res = Inr r \<longrightarrow> length h \<le> hs_buf r"
    by blast
  moreover from h_plot_extends [OF assms, of libm_log lineplot tick lg "show"] obtain ext' where
    "h_plot_cummulative_returns h libm_log lineplot data tick lg show =
       (plot_cummulative_returns libm_log lineplot (frame_view h data) tick lg show, h @ ext')"
    by blast
  ultimately show ?thesis
    using frame_view_append [OF assms] by simp
qed

theorem input_not_mutated_witness:
  "frame_in_store (store_of [Fin 100, Fin 110, Fin 99]) (hframe_of [Fin 100, Fin 110, Fin 99]) \<and>
   frame_view (snd (h_compute_returns (store_of [Fin 100, Fin 110, Fin 99]) ln
                      (hframe_of [Fin 100, Fin 110, Fin 99]) False))
     (hframe_of [Fin 100, Fin 110, Fin 99]) = prices_of [Fin 100, Fin 110, Fin 99] \<and>
   frame_view (snd (h_plot_cummulative_returns (store_of [Fin 100, Fin 110, Fin 99]) ln
                      example_lineplot (hframe_of [Fin 100, Fin 110, Fin 99]) ''AAPL'' False True))
     (hframe_of [Fin 100, Fin 110, Fin 99]) = prices_of [Fin 100, Fin 110, Fin 99] \<and>
   map_sum id (series_view (snd (h_compute_returns (store_of [Fin 100, Fin 110, Fin 99]) ln
                      (hframe_of [Fin 100, Fin 110, Fin 99]) False)))
     (fst (h_compute_returns (store_of [Fin 100, Fin 110, Fin 99]) ln
                      (hframe_of [Fin 100, Fin 110, Fin 99]) False)) =
     Inr \<lparr>s_index = [0, 1, 2],
          s_values = [Fin 1, Fin (225179981368525 / 2251799813685248),
                      Fin (- (900719925474099 / 9007199254740992))]\<rparr>"
  using input_not_mutated [OF frame_in_store_of, of "[Fin 100, Fin 110, Fin 99]" ln False
      example_lineplot "''AAPL''" True]
  by (simp add: frame_view_store_of frame_in_store_of example_returns)

end
